theory Spec2Isabelle
  imports Main "HOL-Library.AList"
begin

section \<open>Python values, exceptions and string primitives\<close>

text \<open>
  The client is Python 3. Exceptions become values of type \<open>exn\<close>; a computation that may
  raise returns \<open>exn + 'a\<close> with \<open>Inl\<close> for the exception. \<open>RequestError\<close> stands for
  whatever \<open>requests.request\<close> or \<open>resp.json()\<close> raise (transport failure, undecodable
  body): the client catches none of them.

  Python values that travel through the client (arguments, parameter bags, decoded JSON)
  are \<open>pyval\<close>. A dict is an association list in insertion order whose keys are strings,
  as in decoded JSON and in every payload the docstrings describe.
  Strings are lists of 8-bit characters.
\<close>

datatype exn = ValueError | TypeError | KeyError | IndexError | AttributeError | RequestError

datatype pyval =
    PNone
  | PBool bool
  | PInt int
  | PStr string
  | PList "pyval list"
  | PDict "(string \<times> pyval) list"

text \<open>\<open>find_char c s\<close> is the position of the first \<open>c\<close> in \<open>s\<close>, if any.\<close>

fun find_char :: "char \<Rightarrow> string \<Rightarrow> nat option" where
  "find_char c [] = None"
| "find_char c (x # xs) = (if x = c then Some 0 else map_option Suc (find_char c xs))"

text \<open>\<open>s.find(c)\<close> and \<open>s.rfind(c)\<close>: an index, or \<open>-1\<close> when \<open>c\<close> does not occur.\<close>

definition str_find :: "string \<Rightarrow> char \<Rightarrow> int" where
  "str_find s c = (case find_char c s of None \<Rightarrow> - 1 | Some i \<Rightarrow> int i)"

definition str_rfind :: "string \<Rightarrow> char \<Rightarrow> int" where
  "str_rfind s c =
     (case find_char c (rev s) of None \<Rightarrow> - 1 | Some i \<Rightarrow> int (length s) - 1 - int i)"

text \<open>\<open>s.find(c, start)\<close> for \<open>start \<ge> 0\<close>.\<close>

definition str_find_from :: "string \<Rightarrow> char \<Rightarrow> nat \<Rightarrow> int" where
  "str_find_from s c start =
     (case find_char c (drop start s) of None \<Rightarrow> - 1 | Some i \<Rightarrow> int (start + i))"

text \<open>The slice \<open>s[i:j]\<close>: a negative index counts from the end, and both ends are clamped.\<close>

definition slice_index :: "nat \<Rightarrow> int \<Rightarrow> nat" where
  "slice_index n i = (if i < 0 then nat (max 0 (int n + i)) else min n (nat i))"

definition str_slice :: "string \<Rightarrow> int \<Rightarrow> int \<Rightarrow> string" where
  "str_slice s i j =
     (let a = slice_index (length s) i; b = slice_index (length s) j
      in take (b - a) (drop a s))"

text \<open>\<open>s.split(c)\<close> (always at least one piece) and \<open>sep.join(pieces)\<close>.\<close>

fun str_split :: "string \<Rightarrow> char \<Rightarrow> string list" where
  "str_split [] c = [[]]"
| "str_split (x # xs) c =
     (if x = c then [] # str_split xs c
      else (case str_split xs c of [] \<Rightarrow> [[x]] | y # ys \<Rightarrow> (x # y) # ys))"

fun str_join :: "string \<Rightarrow> string list \<Rightarrow> string" where
  "str_join sep [] = []"
| "str_join sep [x] = x"
| "str_join sep (x # y # ys) = x @ sep @ str_join sep (y # ys)"

section \<open>\<open>pathlib\<close>: the suffix step of \<open>fetch_url\<close>\<close>

text \<open>
  \<open>fetch_url\<close> computes \<open>str(pathlib.Path(url).with_suffix('.json'))\<close>. On a POSIX
  system \<open>Path\<close> is a \<open>PurePosixPath\<close>: a root (\<open>''\<close>, \<open>'/'\<close> or \<open>'//'\<close>) and the list of
  the non-empty components other than \<open>'.'\<close>.
\<close>

record pure_path =
  root :: string
  parts :: "string list"

definition splitroot :: "string \<Rightarrow> string \<times> string" where
  "splitroot part =
     (if part \<noteq> [] \<and> hd part = CHR ''/'' then
        (let stripped = dropWhile (\<lambda>c. c = CHR ''/'') part
         in if length part - length stripped = 2 then (''//'', stripped)
            else (''/'', stripped))
      else ('''', part))"

definition parse_path :: "string \<Rightarrow> pure_path" where
  "parse_path p =
     (case splitroot p of
        (rt, rel) \<Rightarrow>
          \<lparr>root = rt,
           parts = filter (\<lambda>x. x \<noteq> [] \<and> x \<noteq> ''.'') (str_split rel CHR ''/'')\<rparr>)"

definition path_name :: "pure_path \<Rightarrow> string" where
  "path_name p = (if parts p = [] then [] else last (parts p))"

definition path_suffix :: "pure_path \<Rightarrow> string" where
  "path_suffix p =
     (let name = path_name p; i = str_rfind name CHR ''.''
      in if 0 < i \<and> i < int (length name) - 1
         then str_slice name i (int (length name)) else [])"

definition with_suffix :: "pure_path \<Rightarrow> string \<Rightarrow> exn + pure_path" where
  "with_suffix p suffix =
     (if CHR ''/'' \<in> set suffix then Inl ValueError
      else if (suffix \<noteq> [] \<and> hd suffix \<noteq> CHR ''.'') \<or> suffix = ''.'' then Inl ValueError
      else
        let name = path_name p in
        if name = [] then Inl ValueError
        else
          let old_suffix = path_suffix p;
              name' = (if old_suffix = [] then name @ suffix
                       else str_slice name 0 (- int (length old_suffix)) @ suffix)
          in Inr (p\<lparr>parts := butlast (parts p) @ [name']\<rparr>))"

definition path_str :: "pure_path \<Rightarrow> string" where
  "path_str p =
     (let s = root p @ str_join ''/'' (parts p) in if s = [] then ''.'' else s)"

text \<open>The suffix step: \<open>endpoint = str(pathlib.Path(url).with_suffix('.json'))\<close>.\<close>

definition json_endpoint :: "string \<Rightarrow> exn + string" where
  "json_endpoint url =
     (case with_suffix (parse_path url) ''.json'' of
        Inl e \<Rightarrow> Inl e
      | Inr p \<Rightarrow> Inr (path_str p))"

section \<open>\<open>urllib.parse\<close>: \<open>urljoin\<close>\<close>

text \<open>
  \<open>fetch_url\<close> builds the request URL with \<open>urllib.parse.urljoin\<close>, twice. The model
  follows CPython 3.11's \<open>urlsplit\<close>, \<open>urlparse\<close>, \<open>urlunparse\<close> and \<open>urljoin\<close> on
  \<open>str\<close> arguments. Two checks of \<open>urlsplit\<close> reach into other libraries
  (\<open>ipaddress\<close> for a bracketed host, \<open>unicodedata\<close> for a non-ASCII network location);
  they are fields of the environment \<open>libs\<close>, next to \<open>json.dumps\<close> and the network.
\<close>

definition uses_relative :: "string list" where
  "uses_relative = ['''', ''ftp'', ''http'', ''gopher'', ''nntp'', ''imap'',
     ''wais'', ''file'', ''https'', ''shttp'', ''mms'',
     ''prospero'', ''rtsp'', ''rtsps'', ''rtspu'', ''sftp'',
     ''svn'', ''svn+ssh'', ''ws'', ''wss'']"

definition uses_netloc :: "string list" where
  "uses_netloc = ['''', ''ftp'', ''http'', ''gopher'', ''nntp'', ''telnet'',
     ''imap'', ''wais'', ''file'', ''mms'', ''https'', ''shttp'',
     ''snews'', ''prospero'', ''rtsp'', ''rtsps'', ''rtspu'', ''rsync'',
     ''svn'', ''svn+ssh'', ''sftp'', ''nfs'', ''git'', ''git+ssh'',
     ''ws'', ''wss'']"

definition uses_params :: "string list" where
  "uses_params = ['''', ''ftp'', ''hdl'', ''prospero'', ''http'', ''imap'',
     ''https'', ''shttp'', ''rtsp'', ''rtsps'', ''rtspu'', ''sip'',
     ''sips'', ''mms'', ''sftp'', ''tel'']"

definition ascii_lowercase :: string where
  "ascii_lowercase = ''abcdefghijklmnopqrstuvwxyz''"

definition ascii_uppercase :: string where
  "ascii_uppercase = ''ABCDEFGHIJKLMNOPQRSTUVWXYZ''"

definition scheme_chars :: string where
  "scheme_chars = ascii_lowercase @ ascii_uppercase @ ''0123456789'' @ ''+-.''"

text \<open>\<open>c.isascii() and c.isalpha()\<close>, and \<open>lower()\<close> on an ASCII character.\<close>

definition ascii_alpha :: "char \<Rightarrow> bool" where
  "ascii_alpha c \<longleftrightarrow> c \<in> set ascii_lowercase \<or> c \<in> set ascii_uppercase"

definition ascii_lower :: "char \<Rightarrow> char" where
  "ascii_lower c = (case map_of (zip ascii_uppercase ascii_lowercase) c of
                      None \<Rightarrow> c | Some l \<Rightarrow> l)"

text \<open>The characters U+0000 to U+0020 that \<open>urlsplit\<close> strips, and the three it removes.\<close>

definition c0_control_or_space :: "char \<Rightarrow> bool" where
  "c0_control_or_space c \<longleftrightarrow> (of_char c :: nat) \<le> 32"

definition unsafe_url_byte :: "char \<Rightarrow> bool" where
  "unsafe_url_byte c \<longleftrightarrow> (of_char c :: nat) \<in> {9, 13, 10}"

definition str_strip :: "(char \<Rightarrow> bool) \<Rightarrow> string \<Rightarrow> string" where
  "str_strip P s = rev (dropWhile P (rev (dropWhile P s)))"

datatype http_request = Request (req_method: "string option") (req_url: string)
  (req_headers: "(string \<times> string) list") (req_params: pyval)

record libs =
  bracketed_host_ok :: "string \<Rightarrow> bool"
  nfkc_netloc_ok :: "string \<Rightarrow> bool"
  json_dumps :: "pyval \<Rightarrow> string"
  http_json :: "http_request \<Rightarrow> exn + pyval"

text \<open>\<open>_splitnetloc(url, 2)\<close>: the network location ends at the first of \<open>/ ? #\<close>.\<close>

definition splitnetloc :: "string \<Rightarrow> nat \<Rightarrow> string \<times> string" where
  "splitnetloc url start =
     (let rest = drop start url;
          dom = takeWhile (\<lambda>c. c \<noteq> CHR ''/'' \<and> c \<noteq> CHR ''?'' \<and> c \<noteq> CHR ''#'') rest
      in (dom, drop (length dom) rest))"

text \<open>\<open>s.split(c, 1)\<close> when \<open>c\<close> occurs in \<open>s\<close>, and \<open>s.partition(c)\<close>'s outer pieces.\<close>

definition split_first :: "string \<Rightarrow> char \<Rightarrow> string \<times> string" where
  "split_first s c = (takeWhile (\<lambda>x. x \<noteq> c) s, drop 1 (dropWhile (\<lambda>x. x \<noteq> c) s))"

definition checknetloc :: "libs \<Rightarrow> string \<Rightarrow> bool" where
  "checknetloc L netloc \<longleftrightarrow>
     netloc = [] \<or> list_all (\<lambda>c. (of_char c :: nat) < 128) netloc \<or> nfkc_netloc_ok L netloc"

definition urlsplit ::
  "libs \<Rightarrow> string \<Rightarrow> string \<Rightarrow> exn + (string \<times> string \<times> string \<times> string \<times> string)" where
  "urlsplit L url0 scheme0 =
     (let url1 = filter (\<lambda>c. \<not> unsafe_url_byte c) (dropWhile c0_control_or_space url0);
          scheme1 = filter (\<lambda>c. \<not> unsafe_url_byte c) (str_strip c0_control_or_space scheme0);
          i = str_find url1 CHR '':'';
          found = (0 < i \<and> ascii_alpha (hd url1) \<and>
                   list_all (\<lambda>c. c \<in> set scheme_chars) (str_slice url1 0 i));
          scheme = (if found then map ascii_lower (str_slice url1 0 i) else scheme1);
          url2 = (if found then str_slice url1 (i + 1) (int (length url1)) else url1);
          has_netloc = (take 2 url2 = ''//'');
          netloc = (if has_netloc then fst (splitnetloc url2 2) else []);
          url3 = (if has_netloc then snd (splitnetloc url2 2) else url2);
          lb = (CHR ''['' \<in> set netloc);
          rb = (CHR '']'' \<in> set netloc)
      in
        if has_netloc \<and> lb \<noteq> rb then Inl ValueError
        else if has_netloc \<and> lb \<and> rb \<and>
                \<not> bracketed_host_ok L
                    (fst (split_first (snd (split_first netloc CHR ''['')) CHR '']''))
        then Inl ValueError
        else
          let fragment = (if CHR ''#'' \<in> set url3 then snd (split_first url3 CHR ''#'') else []);
              url4 = (if CHR ''#'' \<in> set url3 then fst (split_first url3 CHR ''#'') else url3);
              query = (if CHR ''?'' \<in> set url4 then snd (split_first url4 CHR ''?'') else []);
              url5 = (if CHR ''?'' \<in> set url4 then fst (split_first url4 CHR ''?'') else url4)
          in if checknetloc L netloc then Inr (scheme, netloc, url5, query, fragment)
             else Inl ValueError)"

definition splitparams :: "string \<Rightarrow> string \<times> string" where
  "splitparams url =
     (let i = (if CHR ''/'' \<in> set url
               then str_find_from url CHR '';'' (nat (str_rfind url CHR ''/''))
               else str_find url CHR '';'')
      in if CHR ''/'' \<in> set url \<and> i < 0 then (url, [])
         else (str_slice url 0 i, str_slice url (i + 1) (int (length url))))"

definition urlparse ::
  "libs \<Rightarrow> string \<Rightarrow> string \<Rightarrow>
     exn + (string \<times> string \<times> string \<times> string \<times> string \<times> string)" where
  "urlparse L url scheme0 =
     (case urlsplit L url scheme0 of
        Inl e \<Rightarrow> Inl e
      | Inr (scheme, netloc, url', query, fragment) \<Rightarrow>
          if scheme \<in> set uses_params \<and> CHR '';'' \<in> set url'
          then Inr (scheme, netloc, fst (splitparams url'), snd (splitparams url'),
                    query, fragment)
          else Inr (scheme, netloc, url', [], query, fragment))"

definition urlunsplit :: "string \<times> string \<times> string \<times> string \<times> string \<Rightarrow> string" where
  "urlunsplit c =
     (case c of
        (scheme, netloc, url, query, fragment) \<Rightarrow>
          let url1 = (if netloc \<noteq> [] \<or> (scheme \<noteq> [] \<and> scheme \<in> set uses_netloc)
                         \<or> take 2 url = ''//''
                      then ''//'' @ netloc @
                           (if url \<noteq> [] \<and> take 1 url \<noteq> ''/'' then ''/'' @ url else url)
                      else url);
              url2 = (if scheme \<noteq> [] then scheme @ '':'' @ url1 else url1);
              url3 = (if query \<noteq> [] then url2 @ ''?'' @ query else url2)
          in if fragment \<noteq> [] then url3 @ ''#'' @ fragment else url3)"

definition urlunparse ::
  "string \<times> string \<times> string \<times> string \<times> string \<times> string \<Rightarrow> string" where
  "urlunparse c =
     (case c of
        (scheme, netloc, url, params, query, fragment) \<Rightarrow>
          urlunsplit (scheme, netloc,
                      (if params \<noteq> [] then url @ '';'' @ params else url), query, fragment))"

text \<open>
  The loop of \<open>urljoin\<close> over the path segments: \<open>'..'\<close> pops the last resolved segment
  (and does nothing on an empty list), \<open>'.'\<close> is skipped.
\<close>

fun resolve_segments :: "string list \<Rightarrow> string list \<Rightarrow> string list" where
  "resolve_segments resolved [] = resolved"
| "resolve_segments resolved (seg # segs) =
     (if seg = ''..'' then resolve_segments (butlast resolved) segs
      else if seg = ''.'' then resolve_segments resolved segs
      else resolve_segments (resolved @ [seg]) segs)"

text \<open>\<open>segments[1:-1] = filter(None, segments[1:-1])\<close>.\<close>

definition filter_inner :: "string list \<Rightarrow> string list" where
  "filter_inner segs =
     (if length segs < 2 then segs
      else hd segs # filter (\<lambda>x. x \<noteq> []) (butlast (tl segs)) @ [last segs])"

definition urljoin :: "libs \<Rightarrow> string \<Rightarrow> string \<Rightarrow> exn + string" where
  "urljoin L base url =
     (if base = [] then Inr url
      else if url = [] then Inr base
      else
        case urlparse L base [] of
          Inl e \<Rightarrow> Inl e
        | Inr (bscheme, bnetloc, bpath, bparams, bquery, bfragment) \<Rightarrow>
           (case urlparse L url bscheme of
              Inl e \<Rightarrow> Inl e
            | Inr (scheme, netloc0, path, params, query, fragment) \<Rightarrow>
                if scheme \<noteq> bscheme \<or> scheme \<notin> set uses_relative then Inr url
                else if scheme \<in> set uses_netloc \<and> netloc0 \<noteq> []
                then Inr (urlunparse (scheme, netloc0, path, params, query, fragment))
                else
                  let netloc = (if scheme \<in> set uses_netloc then bnetloc else netloc0) in
                  if path = [] \<and> params = []
                  then Inr (urlunparse (scheme, netloc, bpath, bparams,
                              (if query = [] then bquery else query), fragment))
                  else
                    let base_parts0 = str_split bpath CHR ''/'';
                        base_parts = (if last base_parts0 \<noteq> [] then butlast base_parts0
                                      else base_parts0);
                        segments = (if take 1 path = ''/'' then str_split path CHR ''/''
                                    else filter_inner (base_parts @ str_split path CHR ''/''));
                        resolved0 = resolve_segments [] segments;
                        resolved = (if last segments \<in> {''.'', ''..''} then resolved0 @ [[]]
                                    else resolved0);
                        joined = str_join ''/'' resolved
                    in Inr (urlunparse (scheme, netloc,
                              (if joined = [] then ''/'' else joined),
                              params, query, fragment))))"

section \<open>The client: configuration, state and the request pipeline\<close>

text \<open>
  \<open>JotformAPIClient\<close> has two attributes, set by \<open>__init__\<close>. A method runs in a state
  made of the client object (\<open>this\<close>), the calls made to \<open>requests.request\<close> so far, and
  the records handed to the module's logger; it returns its result, or the exception it
  raised, with the state it leaves behind.
\<close>

record client =
  api_key :: string
  debug_mode :: bool

record state =
  this :: client
  requests_made :: "http_request list"
  debug_log :: "pyval list"

definition base_url :: string where
  "base_url = ''https://api.jotform.com/''"

definition api_version :: string where
  "api_version = ''v1''"


definition log :: "pyval \<Rightarrow> state \<Rightarrow> state" where
  "log message s =
     (if debug_mode (this s) then s\<lparr>debug_log := debug_log s @ [message]\<rparr> else s)"

text \<open>Python's truth value of an object, as \<open>if params:\<close> and \<open>if filters:\<close> test it.\<close>

fun truthy :: "pyval \<Rightarrow> bool" where
  "truthy PNone = False"
| "truthy (PBool b) = b"
| "truthy (PInt i) = (i \<noteq> 0)"
| "truthy (PStr s) = (s \<noteq> [])"
| "truthy (PList xs) = (xs \<noteq> [])"
| "truthy (PDict d) = (d \<noteq> [])"

text \<open>\<open>d.get(k)\<close>: the value at \<open>k\<close>, or \<open>None\<close>.\<close>

definition dict_get :: "(string \<times> pyval) list \<Rightarrow> string \<Rightarrow> pyval" where
  "dict_get d k = (case map_of d k of None \<Rightarrow> PNone | Some v \<Rightarrow> v)"

text \<open>
  \<open>http_json L request\<close> is \<open>requests.request(...)\<close> followed by \<open>resp.json()\<close>: the decoded
  body, or the exception either of them raised. A decoded body that is not an object has
  no \<open>get\<close> method.
\<close>

definition fetch_url ::
  "libs \<Rightarrow> string \<Rightarrow> pyval \<Rightarrow> string option \<Rightarrow> state \<Rightarrow> (exn + pyval) \<times> state" where
  "fetch_url L url params method s =
     (case urljoin L base_url api_version of
        Inl e \<Rightarrow> (Inl e, s)
      | Inr versioned \<Rightarrow>
         (case json_endpoint url of
            Inl e \<Rightarrow> (Inl e, s)
          | Inr endpoint \<Rightarrow>
             (case urljoin L versioned endpoint of
                Inl e \<Rightarrow> (Inl e, s)
              | Inr url' \<Rightarrow>
                  let s1 = log (PStr (''fetching url '' @ url')) s;
                      s2 = (if truthy params then log params s1 else s1);
                      headers = [(''apiKey'', api_key (this s2))];
                      request = Request method url' headers params;
                      s3 = s2\<lparr>requests_made := requests_made s2 @ [request]\<rparr>
                  in (case http_json L request of
                        Inl e \<Rightarrow> (Inl e, s3)
                      | Inr json_response \<Rightarrow>
                         (case json_response of
                            PDict d \<Rightarrow> (Inr (dict_get d ''content''), s3)
                          | _ \<Rightarrow> (Inl AttributeError, s3))))))"

subsection \<open>Parameter helpers\<close>

text \<open>
  The dict comprehension \<open>{k: v for k, v in kwargs.items() if k}\<close> keeps the entries whose
  \<^emph>\<open>key\<close> is true.
\<close>

definition create_conditions ::
  "libs \<Rightarrow> pyval \<Rightarrow> pyval \<Rightarrow> pyval \<Rightarrow> pyval \<Rightarrow> (string \<times> pyval) list" where
  "create_conditions L offset limit filters order_by =
     (let kwargs = [(''offset'', offset), (''limit'', limit), (''orderby'', order_by)];
          params = filter (\<lambda>(k, v). truthy (PStr k)) kwargs
      in if truthy filters
         then AList.update ''filter'' (PStr (json_dumps L filters)) params
         else params)"

definition create_history_query ::
  "pyval \<Rightarrow> pyval \<Rightarrow> pyval \<Rightarrow> pyval \<Rightarrow> pyval \<Rightarrow> (string \<times> pyval) list" where
  "create_history_query action date sort_by start_date end_date =
     (let kwargs = [(''action'', action), (''date'', date), (''sort_by'', sort_by),
                    (''startDate'', start_date), (''endDate'', end_date)]
      in filter (\<lambda>(k, v). truthy (PStr k)) kwargs)"

subsection \<open>Key flattening\<close>

text \<open>
  The loops \<open>for key in d: ... d[key]\<close> run over the entries of the dict in insertion
  order; \<open>sub[k] = v\<close> is \<open>AList.update\<close>, which overwrites in place or appends.
\<close>

definition create_form_submission_key :: "string \<Rightarrow> string" where
  "create_form_submission_key key =
     (if CHR ''_'' \<in> set key
      then ''submission['' @ str_slice key 0 (str_find key CHR ''_'') @ '']['' @
           str_slice key (str_find key CHR ''_'' + 1) (int (length key)) @ '']''
      else ''submission['' @ key @ '']'')"

definition create_form_submission_params ::
  "(string \<times> pyval) list \<Rightarrow> (string \<times> pyval) list" where
  "create_form_submission_params submission =
     foldl (\<lambda>sub (key, v). AList.update (create_form_submission_key key) v sub) [] submission"

definition edit_submission_key :: "string \<Rightarrow> string" where
  "edit_submission_key key =
     (if CHR ''_'' \<in> set key \<and> key \<noteq> ''created_at''
      then ''submission['' @ str_slice key 0 (str_find key CHR ''_'') @ '']['' @
           str_slice key (str_find key CHR ''_'' + 1) (int (length key)) @ '']''
      else ''submission['' @ key @ '']'')"

definition edit_submission_params ::
  "(string \<times> pyval) list \<Rightarrow> (string \<times> pyval) list" where
  "edit_submission_params submission =
     foldl (\<lambda>sub (key, v). AList.update (edit_submission_key key) v sub) [] submission"

definition create_form_question_params ::
  "(string \<times> pyval) list \<Rightarrow> (string \<times> pyval) list" where
  "create_form_question_params question =
     foldl (\<lambda>params (key, v). AList.update (''question['' @ key @ '']'') v params) [] question"

definition edit_form_question_params ::
  "(string \<times> pyval) list \<Rightarrow> (string \<times> pyval) list" where
  "edit_form_question_params question_properties =
     foldl (\<lambda>question (key, v). AList.update (''question['' @ key @ '']'') v question)
       [] question_properties"

definition set_form_properties_params ::
  "(string \<times> pyval) list \<Rightarrow> (string \<times> pyval) list" where
  "set_form_properties_params form_properties =
     foldl (\<lambda>properties (key, v). AList.update (''properties['' @ key @ '']'') v properties)
       [] form_properties"

subsection \<open>Whole-form flattening\<close>

text \<open>
  \<open>create_form\<close> iterates over values it has not checked: iterating (\<open>for k in value\<close>)
  and subscripting (\<open>value[k]\<close>) raise on the wrong kind of object, and \<open>+\<close> raises when
  an operand is not a string. An assignment \<open>params[e1] = e2\<close> evaluates \<open>e2\<close> first.
\<close>

definition py_iter :: "pyval \<Rightarrow> exn + pyval list" where
  "py_iter x =
     (case x of
        PDict d \<Rightarrow> Inr (map (\<lambda>(k, v). PStr k) d)
      | PList xs \<Rightarrow> Inr xs
      | PStr s \<Rightarrow> Inr (map (\<lambda>c. PStr [c]) s)
      | _ \<Rightarrow> Inl TypeError)"

definition seq_index :: "'a list \<Rightarrow> int \<Rightarrow> exn + 'a" where
  "seq_index xs i =
     (if 0 \<le> i \<and> i < int (length xs) then Inr (xs ! nat i)
      else if i < 0 \<and> - int (length xs) \<le> i then Inr (xs ! nat (int (length xs) + i))
      else Inl IndexError)"

definition py_index :: "pyval \<Rightarrow> int option" where
  "py_index k = (case k of PInt i \<Rightarrow> Some i
                 | PBool b \<Rightarrow> Some (if b then 1 else 0)
                 | _ \<Rightarrow> None)"

definition py_getitem :: "pyval \<Rightarrow> pyval \<Rightarrow> exn + pyval" where
  "py_getitem x k =
     (case x of
        PDict d \<Rightarrow>
          (case k of
             PStr key \<Rightarrow> (case map_of d key of None \<Rightarrow> Inl KeyError | Some v \<Rightarrow> Inr v)
           | PList _ \<Rightarrow> Inl TypeError
           | PDict _ \<Rightarrow> Inl TypeError
           | _ \<Rightarrow> Inl KeyError)
      | PList xs \<Rightarrow>
          (case py_index k of None \<Rightarrow> Inl TypeError | Some i \<Rightarrow> seq_index xs i)
      | PStr s \<Rightarrow>
          (case py_index k of
             None \<Rightarrow> Inl TypeError
           | Some i \<Rightarrow> (case seq_index s i of Inl e \<Rightarrow> Inl e | Inr c \<Rightarrow> Inr (PStr [c])))
      | _ \<Rightarrow> Inl TypeError)"

fun for_each :: "('s \<Rightarrow> 'a \<Rightarrow> exn + 's) \<Rightarrow> 'a list \<Rightarrow> 's \<Rightarrow> exn + 's" where
  "for_each body [] s = Inr s"
| "for_each body (x # xs) s =
     (case body s x of Inl e \<Rightarrow> Inl e | Inr s' \<Rightarrow> for_each body xs s')"

text \<open>\<open>params[key + '[' + k + ']'] = value[k]\<close>\<close>

definition properties_item ::
  "string \<Rightarrow> pyval \<Rightarrow> (string \<times> pyval) list \<Rightarrow> pyval \<Rightarrow> exn + (string \<times> pyval) list" where
  "properties_item key value params k =
     (case py_getitem value k of
        Inl e \<Rightarrow> Inl e
      | Inr x \<Rightarrow>
         (case k of
            PStr ks \<Rightarrow> Inr (AList.update (key @ ''['' @ ks @ '']'') x params)
          | _ \<Rightarrow> Inl TypeError))"

text \<open>\<open>params[key + '[' + k + '][' + a + ']'] = v[a]\<close>\<close>

definition field_item ::
  "string \<Rightarrow> pyval \<Rightarrow> pyval \<Rightarrow> (string \<times> pyval) list \<Rightarrow> pyval
     \<Rightarrow> exn + (string \<times> pyval) list" where
  "field_item key k v params a =
     (case py_getitem v a of
        Inl e \<Rightarrow> Inl e
      | Inr x \<Rightarrow>
         (case k of
            PStr ks \<Rightarrow>
              (case a of
                 PStr as \<Rightarrow>
                   Inr (AList.update (key @ ''['' @ ks @ '']['' @ as @ '']'') x params)
               | _ \<Rightarrow> Inl TypeError)
          | _ \<Rightarrow> Inl TypeError))"

text \<open>The body of \<open>for k in value:\<close>, with its two branches.\<close>

definition group_item ::
  "string \<Rightarrow> pyval \<Rightarrow> (string \<times> pyval) list \<Rightarrow> pyval \<Rightarrow> exn + (string \<times> pyval) list" where
  "group_item key value params k =
     (if key = ''properties'' then
        (case py_iter value of
           Inl e \<Rightarrow> Inl e
         | Inr ks \<Rightarrow> for_each (properties_item key value) ks params)
      else
        (case py_getitem value k of
           Inl e \<Rightarrow> Inl e
         | Inr v \<Rightarrow>
            (case py_iter v of
               Inl e \<Rightarrow> Inl e
             | Inr as \<Rightarrow> for_each (field_item key k v) as params)))"

text \<open>The body of \<open>for key in form:\<close>.\<close>

definition form_item ::
  "(string \<times> pyval) list \<Rightarrow> string \<times> pyval \<Rightarrow> exn + (string \<times> pyval) list" where
  "form_item params entry =
     (case entry of
        (key, value) \<Rightarrow>
          (case py_iter value of
             Inl e \<Rightarrow> Inl e
           | Inr ks \<Rightarrow> for_each (group_item key value) ks params))"

definition create_form_params :: "(string \<times> pyval) list \<Rightarrow> exn + (string \<times> pyval) list" where
  "create_form_params form = for_each form_item form []"

subsection \<open>The public operations\<close>

text \<open>
  Each method builds its path and its parameter bag and hands them to \<open>fetch_url\<close>.
  Identifiers are strings (the argument \<open>id\<close> is written \<open>id'\<close>); an optional argument
  left out is \<open>PNone\<close>.
\<close>

definition get_user ::
  "libs \<Rightarrow> state \<Rightarrow> (exn + pyval) \<times> state" where
  "get_user L s =
     fetch_url L ''/user'' PNone (Some ''GET'') s"

definition get_usage ::
  "libs \<Rightarrow> state \<Rightarrow> (exn + pyval) \<times> state" where
  "get_usage L s =
     fetch_url L ''/user/usage'' PNone (Some ''GET'') s"

definition get_forms ::
  "libs \<Rightarrow> pyval \<Rightarrow> pyval \<Rightarrow> pyval \<Rightarrow> pyval \<Rightarrow> state \<Rightarrow> (exn + pyval) \<times> state" where
  "get_forms L offset limit filters order_by s =
     fetch_url L ''/user/forms'' (PDict (create_conditions L offset limit filters order_by)) (Some ''GET'') s"

definition get_submissions ::
  "libs \<Rightarrow> pyval \<Rightarrow> pyval \<Rightarrow> pyval \<Rightarrow> pyval \<Rightarrow> state \<Rightarrow> (exn + pyval) \<times> state" where
  "get_submissions L offset limit filters order_by s =
     fetch_url L ''/user/submissions'' (PDict (create_conditions L offset limit filters order_by)) (Some ''GET'') s"

definition get_subusers ::
  "libs \<Rightarrow> state \<Rightarrow> (exn + pyval) \<times> state" where
  "get_subusers L s =
     fetch_url L ''/user/subusers'' PNone (Some ''GET'') s"

definition get_folders ::
  "libs \<Rightarrow> state \<Rightarrow> (exn + pyval) \<times> state" where
  "get_folders L s =
     fetch_url L ''/user/folders'' PNone (Some ''GET'') s"

definition get_reports ::
  "libs \<Rightarrow> state \<Rightarrow> (exn + pyval) \<times> state" where
  "get_reports L s =
     fetch_url L ''/user/reports'' PNone (Some ''GET'') s"

definition get_settings ::
  "libs \<Rightarrow> state \<Rightarrow> (exn + pyval) \<times> state" where
  "get_settings L s =
     fetch_url L ''/user/settings'' PNone (Some ''GET'') s"

definition update_settings ::
  "libs \<Rightarrow> pyval \<Rightarrow> state \<Rightarrow> (exn + pyval) \<times> state" where
  "update_settings L settings s =
     fetch_url L ''/user/settings'' settings (Some ''POST'') s"

definition get_history ::
  "libs \<Rightarrow> pyval \<Rightarrow> pyval \<Rightarrow> pyval \<Rightarrow> pyval \<Rightarrow> pyval \<Rightarrow> state \<Rightarrow> (exn + pyval) \<times> state" where
  "get_history L action date sort_by start_date end_date s =
     fetch_url L ''/user/history'' (PDict (create_history_query action date sort_by start_date end_date)) (Some ''GET'') s"

definition get_form ::
  "libs \<Rightarrow> string \<Rightarrow> state \<Rightarrow> (exn + pyval) \<times> state" where
  "get_form L id' s =
     fetch_url L (''/form/'' @ id') PNone (Some ''GET'') s"

definition get_form_questions ::
  "libs \<Rightarrow> string \<Rightarrow> state \<Rightarrow> (exn + pyval) \<times> state" where
  "get_form_questions L id' s =
     fetch_url L (''/form/'' @ id' @ ''/questions'') PNone (Some ''GET'') s"

definition get_form_question ::
  "libs \<Rightarrow> string \<Rightarrow> string \<Rightarrow> state \<Rightarrow> (exn + pyval) \<times> state" where
  "get_form_question L id' qid s =
     fetch_url L (''/form/'' @ id' @ ''/question/'' @ qid) PNone (Some ''GET'') s"

definition get_form_submissions ::
  "libs \<Rightarrow> string \<Rightarrow> pyval \<Rightarrow> pyval \<Rightarrow> pyval \<Rightarrow> pyval \<Rightarrow> state \<Rightarrow> (exn + pyval) \<times> state" where
  "get_form_submissions L id' offset limit filters order_by s =
     fetch_url L (''/form/'' @ id' @ ''/submissions'') (PDict (create_conditions L offset limit filters order_by)) (Some ''GET'') s"

definition create_form_submission ::
  "libs \<Rightarrow> string \<Rightarrow> (string \<times> pyval) list \<Rightarrow> state \<Rightarrow> (exn + pyval) \<times> state" where
  "create_form_submission L id' submission s =
     fetch_url L (''/form/'' @ id' @ ''/submissions'') (PDict (create_form_submission_params submission)) (Some ''POST'') s"

definition create_form_submissions ::
  "libs \<Rightarrow> string \<Rightarrow> pyval \<Rightarrow> state \<Rightarrow> (exn + pyval) \<times> state" where
  "create_form_submissions L id' submissions s =
     fetch_url L (''/form/'' @ id' @ ''/submissions'') submissions (Some ''PUT'') s"

definition get_form_files ::
  "libs \<Rightarrow> string \<Rightarrow> state \<Rightarrow> (exn + pyval) \<times> state" where
  "get_form_files L formID s =
     fetch_url L (''/form/'' @ formID @ ''/files'') PNone (Some ''GET'') s"

definition get_form_webhooks ::
  "libs \<Rightarrow> string \<Rightarrow> state \<Rightarrow> (exn + pyval) \<times> state" where
  "get_form_webhooks L id' s =
     fetch_url L (''/form/'' @ id' @ ''/webhooks'') PNone (Some ''GET'') s"

definition create_form_webhook ::
  "libs \<Rightarrow> string \<Rightarrow> pyval \<Rightarrow> state \<Rightarrow> (exn + pyval) \<times> state" where
  "create_form_webhook L id' webhook_url s =
     fetch_url L (''/form/'' @ id' @ ''/webhooks'') (PDict [(''webhookURL'', webhook_url)]) (Some ''POST'') s"

definition delete_form_webhook ::
  "libs \<Rightarrow> string \<Rightarrow> string \<Rightarrow> state \<Rightarrow> (exn + pyval) \<times> state" where
  "delete_form_webhook L id' webhook_id s =
     fetch_url L (''/form/'' @ id' @ ''/webhooks/'' @ webhook_id) PNone (Some ''DELETE'') s"

definition get_submission ::
  "libs \<Rightarrow> string \<Rightarrow> state \<Rightarrow> (exn + pyval) \<times> state" where
  "get_submission L sid s =
     fetch_url L (''/submission/'' @ sid) PNone (Some ''GET'') s"

definition get_report ::
  "libs \<Rightarrow> string \<Rightarrow> state \<Rightarrow> (exn + pyval) \<times> state" where
  "get_report L report_id s =
     fetch_url L (''/report/'' @ report_id) PNone (Some ''GET'') s"

definition get_folder ::
  "libs \<Rightarrow> string \<Rightarrow> state \<Rightarrow> (exn + pyval) \<times> state" where
  "get_folder L folder_id s =
     fetch_url L (''/folder/'' @ folder_id) PNone (Some ''GET'') s"

definition get_form_properties ::
  "libs \<Rightarrow> string \<Rightarrow> state \<Rightarrow> (exn + pyval) \<times> state" where
  "get_form_properties L form_id s =
     fetch_url L (''/form/'' @ form_id @ ''/properties'') PNone (Some ''GET'') s"

definition get_form_property ::
  "libs \<Rightarrow> string \<Rightarrow> string \<Rightarrow> state \<Rightarrow> (exn + pyval) \<times> state" where
  "get_form_property L form_id property_key s =
     fetch_url L (''/form/'' @ form_id @ ''/properties/'' @ property_key) PNone (Some ''GET'') s"

definition get_form_reports ::
  "libs \<Rightarrow> string \<Rightarrow> state \<Rightarrow> (exn + pyval) \<times> state" where
  "get_form_reports L form_id s =
     fetch_url L (''/form/'' @ form_id @ ''/reports'') PNone (Some ''GET'') s"

definition create_report ::
  "libs \<Rightarrow> string \<Rightarrow> pyval \<Rightarrow> state \<Rightarrow> (exn + pyval) \<times> state" where
  "create_report L form_id report s =
     fetch_url L (''/form/'' @ form_id @ ''/reports'') report (Some ''POST'') s"

definition delete_submission ::
  "libs \<Rightarrow> string \<Rightarrow> state \<Rightarrow> (exn + pyval) \<times> state" where
  "delete_submission L sid s =
     fetch_url L (''/submission/'' @ sid) PNone (Some ''DELETE'') s"

definition edit_submission ::
  "libs \<Rightarrow> string \<Rightarrow> (string \<times> pyval) list \<Rightarrow> state \<Rightarrow> (exn + pyval) \<times> state" where
  "edit_submission L sid submission s =
     fetch_url L (''/submission/'' @ sid) (PDict (edit_submission_params submission)) (Some ''POST'') s"

definition clone_form ::
  "libs \<Rightarrow> string \<Rightarrow> state \<Rightarrow> (exn + pyval) \<times> state" where
  "clone_form L form_id s =
     fetch_url L (''/form/'' @ form_id @ ''/clone'') (PDict [(''method'', PStr ''post'')]) (Some ''POST'') s"

definition delete_form_question ::
  "libs \<Rightarrow> string \<Rightarrow> string \<Rightarrow> state \<Rightarrow> (exn + pyval) \<times> state" where
  "delete_form_question L form_id qid s =
     fetch_url L (''/form/'' @ form_id @ ''/question/'' @ qid) PNone (Some ''DELETE'') s"

definition create_form_question ::
  "libs \<Rightarrow> string \<Rightarrow> (string \<times> pyval) list \<Rightarrow> state \<Rightarrow> (exn + pyval) \<times> state" where
  "create_form_question L form_id question s =
     fetch_url L (''/form/'' @ form_id @ ''/questions'') (PDict (create_form_question_params question)) (Some ''POST'') s"

definition create_form_questions ::
  "libs \<Rightarrow> string \<Rightarrow> pyval \<Rightarrow> state \<Rightarrow> (exn + pyval) \<times> state" where
  "create_form_questions L form_id questions s =
     fetch_url L (''/form/'' @ form_id @ ''/questions'') questions (Some ''PUT'') s"

definition edit_form_question ::
  "libs \<Rightarrow> string \<Rightarrow> string \<Rightarrow> (string \<times> pyval) list \<Rightarrow> state \<Rightarrow> (exn + pyval) \<times> state" where
  "edit_form_question L form_id qid question_properties s =
     fetch_url L (''/form/'' @ form_id @ ''/question/'' @ qid) (PDict (edit_form_question_params question_properties)) (Some ''POST'') s"

definition set_form_properties ::
  "libs \<Rightarrow> string \<Rightarrow> (string \<times> pyval) list \<Rightarrow> state \<Rightarrow> (exn + pyval) \<times> state" where
  "set_form_properties L form_id form_properties s =
     fetch_url L (''/form/'' @ form_id @ ''/properties'') (PDict (set_form_properties_params form_properties)) (Some ''POST'') s"

definition set_multiple_form_properties ::
  "libs \<Rightarrow> string \<Rightarrow> pyval \<Rightarrow> state \<Rightarrow> (exn + pyval) \<times> state" where
  "set_multiple_form_properties L form_id form_properties s =
     fetch_url L (''/form/'' @ form_id @ ''/properties'') form_properties (Some ''PUT'') s"

definition create_form ::
  "libs \<Rightarrow> (string \<times> pyval) list \<Rightarrow> state \<Rightarrow> (exn + pyval) \<times> state" where
  "create_form L form s =
     (case create_form_params form of
        Inl e \<Rightarrow> (Inl e, s)
      | Inr params \<Rightarrow> fetch_url L ''/user/forms'' (PDict params) (Some ''POST'') s)"

definition create_forms ::
  "libs \<Rightarrow> pyval \<Rightarrow> state \<Rightarrow> (exn + pyval) \<times> state" where
  "create_forms L form s =
     fetch_url L ''/user/forms'' form (Some ''PUT'') s"

definition delete_form ::
  "libs \<Rightarrow> string \<Rightarrow> state \<Rightarrow> (exn + pyval) \<times> state" where
  "delete_form L form_id s =
     fetch_url L (''/form/'' @ form_id) PNone (Some ''DELETE'') s"

definition register_user ::
  "libs \<Rightarrow> pyval \<Rightarrow> state \<Rightarrow> (exn + pyval) \<times> state" where
  "register_user L userDetails s =
     fetch_url L ''/user/register'' userDetails (Some ''POST'') s"

definition login_user ::
  "libs \<Rightarrow> pyval \<Rightarrow> state \<Rightarrow> (exn + pyval) \<times> state" where
  "login_user L credentials s =
     fetch_url L ''/user/login'' credentials (Some ''POST'') s"

definition logout_user ::
  "libs \<Rightarrow> state \<Rightarrow> (exn + pyval) \<times> state" where
  "logout_user L s =
     fetch_url L ''/user/logout'' PNone (Some ''GET'') s"

definition get_plan ::
  "libs \<Rightarrow> string \<Rightarrow> state \<Rightarrow> (exn + pyval) \<times> state" where
  "get_plan L plan_name s =
     fetch_url L (''/system/plan/'' @ plan_name) PNone (Some ''GET'') s"

definition delete_report ::
  "libs \<Rightarrow> string \<Rightarrow> state \<Rightarrow> (exn + pyval) \<times> state" where
  "delete_report L reportID s =
     fetch_url L (''/report/'' @ reportID) PNone (Some ''DELETE'') s"

text \<open>A call of a method of the client (the helpers \<open>fetch_url\<close>, \<open>log\<close> and the two static
  parameter builders included), and its effect on the state.\<close>

datatype call =
    CallGetUser
  | CallGetUsage
  | CallGetForms pyval pyval pyval pyval
  | CallGetSubmissions pyval pyval pyval pyval
  | CallGetSubusers
  | CallGetFolders
  | CallGetReports
  | CallGetSettings
  | CallUpdateSettings pyval
  | CallGetHistory pyval pyval pyval pyval pyval
  | CallGetForm string
  | CallGetFormQuestions string
  | CallGetFormQuestion string string
  | CallGetFormSubmissions string pyval pyval pyval pyval
  | CallCreateFormSubmission string "(string \<times> pyval) list"
  | CallCreateFormSubmissions string pyval
  | CallGetFormFiles string
  | CallGetFormWebhooks string
  | CallCreateFormWebhook string pyval
  | CallDeleteFormWebhook string string
  | CallGetSubmission string
  | CallGetReport string
  | CallGetFolder string
  | CallGetFormProperties string
  | CallGetFormProperty string string
  | CallGetFormReports string
  | CallCreateReport string pyval
  | CallDeleteSubmission string
  | CallEditSubmission string "(string \<times> pyval) list"
  | CallCloneForm string
  | CallDeleteFormQuestion string string
  | CallCreateFormQuestion string "(string \<times> pyval) list"
  | CallCreateFormQuestions string pyval
  | CallEditFormQuestion string string "(string \<times> pyval) list"
  | CallSetFormProperties string "(string \<times> pyval) list"
  | CallSetMultipleFormProperties string pyval
  | CallCreateForm "(string \<times> pyval) list"
  | CallCreateForms pyval
  | CallDeleteForm string
  | CallRegisterUser pyval
  | CallLoginUser pyval
  | CallLogoutUser
  | CallGetPlan string
  | CallDeleteReport string
  | CallFetchUrl string pyval "string option"
  | CallLog pyval
  | CallCreateConditions pyval pyval pyval pyval
  | CallCreateHistoryQuery pyval pyval pyval pyval pyval

fun run :: "libs \<Rightarrow> call \<Rightarrow> state \<Rightarrow> (exn + pyval) \<times> state" where
  "run L CallGetUser s = get_user L s"
| "run L CallGetUsage s = get_usage L s"
| "run L (CallGetForms offset limit filters order_by) s = get_forms L offset limit filters order_by s"
| "run L (CallGetSubmissions offset limit filters order_by) s = get_submissions L offset limit filters order_by s"
| "run L CallGetSubusers s = get_subusers L s"
| "run L CallGetFolders s = get_folders L s"
| "run L CallGetReports s = get_reports L s"
| "run L CallGetSettings s = get_settings L s"
| "run L (CallUpdateSettings settings) s = update_settings L settings s"
| "run L (CallGetHistory action date sort_by start_date end_date) s = get_history L action date sort_by start_date end_date s"
| "run L (CallGetForm id') s = get_form L id' s"
| "run L (CallGetFormQuestions id') s = get_form_questions L id' s"
| "run L (CallGetFormQuestion id' qid) s = get_form_question L id' qid s"
| "run L (CallGetFormSubmissions id' offset limit filters order_by) s = get_form_submissions L id' offset limit filters order_by s"
| "run L (CallCreateFormSubmission id' submission) s = create_form_submission L id' submission s"
| "run L (CallCreateFormSubmissions id' submissions) s = create_form_submissions L id' submissions s"
| "run L (CallGetFormFiles formID) s = get_form_files L formID s"
| "run L (CallGetFormWebhooks id') s = get_form_webhooks L id' s"
| "run L (CallCreateFormWebhook id' webhook_url) s = create_form_webhook L id' webhook_url s"
| "run L (CallDeleteFormWebhook id' webhook_id) s = delete_form_webhook L id' webhook_id s"
| "run L (CallGetSubmission sid) s = get_submission L sid s"
| "run L (CallGetReport report_id) s = get_report L report_id s"
| "run L (CallGetFolder folder_id) s = get_folder L folder_id s"
| "run L (CallGetFormProperties form_id) s = get_form_properties L form_id s"
| "run L (CallGetFormProperty form_id property_key) s = get_form_property L form_id property_key s"
| "run L (CallGetFormReports form_id) s = get_form_reports L form_id s"
| "run L (CallCreateReport form_id report) s = create_report L form_id report s"
| "run L (CallDeleteSubmission sid) s = delete_submission L sid s"
| "run L (CallEditSubmission sid submission) s = edit_submission L sid submission s"
| "run L (CallCloneForm form_id) s = clone_form L form_id s"
| "run L (CallDeleteFormQuestion form_id qid) s = delete_form_question L form_id qid s"
| "run L (CallCreateFormQuestion form_id question) s = create_form_question L form_id question s"
| "run L (CallCreateFormQuestions form_id questions) s = create_form_questions L form_id questions s"
| "run L (CallEditFormQuestion form_id qid question_properties) s = edit_form_question L form_id qid question_properties s"
| "run L (CallSetFormProperties form_id form_properties) s = set_form_properties L form_id form_properties s"
| "run L (CallSetMultipleFormProperties form_id form_properties) s = set_multiple_form_properties L form_id form_properties s"
| "run L (CallCreateForm form) s = create_form L form s"
| "run L (CallCreateForms form) s = create_forms L form s"
| "run L (CallDeleteForm form_id) s = delete_form L form_id s"
| "run L (CallRegisterUser userDetails) s = register_user L userDetails s"
| "run L (CallLoginUser credentials) s = login_user L credentials s"
| "run L CallLogoutUser s = logout_user L s"
| "run L (CallGetPlan plan_name) s = get_plan L plan_name s"
| "run L (CallDeleteReport reportID) s = delete_report L reportID s"
| "run L (CallFetchUrl url params method) s = fetch_url L url params method s"
| "run L (CallLog message) s = (Inr PNone, log message s)"
| "run L (CallCreateConditions offset limit filters order_by) s =
     (Inr (PDict (create_conditions L offset limit filters order_by)), s)"
| "run L (CallCreateHistoryQuery action date sort_by start_date end_date) s =
     (Inr (PDict (create_history_query action date sort_by start_date end_date)), s)"

text \<open>A session: calls made one after the other on the same client; an exception raised by
  one call is the caller's to handle and does not stop the next.\<close>

fun run_all :: "libs \<Rightarrow> call list \<Rightarrow> state \<Rightarrow> state" where
  "run_all L [] s = s"
| "run_all L (c # cs) s = run_all L cs (snd (run L c s))"

section \<open>Auxiliary definitions for the statements\<close>

text \<open>
  A parsed path is well formed when its root is one of the three that \<open>splitroot\<close>
  produces and no component is empty, \<open>'.'\<close>, or contains a separator.
\<close>

definition wf_path :: "pure_path \<Rightarrow> bool" where
  "wf_path p \<longleftrightarrow>
     root p \<in> {'''', ''/'', ''//''} \<and>
     list_all (\<lambda>x. x \<noteq> [] \<and> x \<noteq> ''.'' \<and> CHR ''/'' \<notin> set x) (parts p)"

text \<open>
  The two parts of a key around its first underscore, and the bracket forms built from
  them: what the specification calls \<open>outer[key]\<close> and \<open>outer[before][after]\<close>.
\<close>

definition before_underscore :: "string \<Rightarrow> string" where
  "before_underscore key = takeWhile (\<lambda>c. c \<noteq> CHR ''_'') key"

definition after_underscore :: "string \<Rightarrow> string" where
  "after_underscore key = tl (dropWhile (\<lambda>c. c \<noteq> CHR ''_'') key)"

definition one_level :: "string \<Rightarrow> string \<Rightarrow> string" where
  "one_level outer key = outer @ ''['' @ key @ '']''"

definition two_level :: "string \<Rightarrow> string \<Rightarrow> string \<Rightarrow> string" where
  "two_level outer a b = outer @ ''['' @ a @ '']['' @ b @ '']''"

text \<open>
  A Python dict has one entry per key. \<open>is_dict\<close> holds of the values that represent a
  dict, \<open>dict_items\<close> are its entries, and \<open>dict_of_items\<close> is \<open>dict(pairs)\<close>: the pairs
  stored one after the other, a later pair overwriting an earlier one with the same key.
\<close>

fun is_dict :: "pyval \<Rightarrow> bool" where
  "is_dict (PDict d) = distinct (map fst d)"
| "is_dict _ = False"

fun dict_items :: "pyval \<Rightarrow> (string \<times> pyval) list" where
  "dict_items (PDict d) = d"
| "dict_items _ = []"

definition dict_of_items :: "(string \<times> pyval) list \<Rightarrow> (string \<times> pyval) list" where
  "dict_of_items es = foldl (\<lambda>d (k, v). AList.update k v d) [] es"

text \<open>
  The input of \<open>create_form\<close> as the specification describes it: every group is a dict,
  and every field of a group other than \<open>properties\<close> is a dict of properties.
\<close>

definition two_level_form :: "(string \<times> pyval) list \<Rightarrow> bool" where
  "two_level_form form \<longleftrightarrow>
     list_all (\<lambda>(g, value). is_dict value \<and>
                 (g = ''properties'' \<or> list_all (\<lambda>(f, v). is_dict v) (dict_items value)))
       form"

text \<open>
  The entries the specification asks for, in the order of the input: \<open>properties[key]\<close>
  for the entries of the \<open>properties\<close> group, \<open>group[field][property]\<close> for every leaf of
  every other group.
\<close>

definition group_entries :: "string \<times> pyval \<Rightarrow> (string \<times> pyval) list" where
  "group_entries entry =
     (case entry of
        (g, value) \<Rightarrow>
          if g = ''properties''
          then map (\<lambda>(k, v). (one_level g k, v)) (dict_items value)
          else concat (map (\<lambda>(f, props). map (\<lambda>(a, v). (two_level g f a, v)) (dict_items props))
                         (dict_items value)))"

definition flat_entries :: "(string \<times> pyval) list \<Rightarrow> (string \<times> pyval) list" where
  "flat_entries form = concat (map group_entries form)"

text \<open>
  An identifier as the provider issues them: a non-empty string of ASCII letters and
  digits.
\<close>

definition plain_char :: "char \<Rightarrow> bool" where
  "plain_char c \<longleftrightarrow> c \<in> set (ascii_lowercase @ ascii_uppercase @ ''0123456789'')"

definition plain_id :: "string \<Rightarrow> bool" where
  "plain_id s \<longleftrightarrow> s \<noteq> [] \<and> list_all plain_char s"



section \<open>Properties of the suffix step\<close>

subsection \<open>Splitting, joining and re-parsing a path\<close>

lemma str_split_no_sep: "c \<notin> set s \<Longrightarrow> str_split s c = [s]"
  by (induction s) auto

lemma str_split_append_sep:
  "c \<notin> set x \<Longrightarrow> str_split (x @ c # r) c = x # str_split r c"
  by (induction x) auto

lemma str_split_pieces: "x \<in> set (str_split s c) \<Longrightarrow> c \<notin> set x"
  by (induction s arbitrary: x) (auto split: if_splits list.splits)

lemma str_split_join:
  "ps \<noteq> [] \<Longrightarrow> \<forall>x\<in>set ps. c \<notin> set x \<Longrightarrow> str_split (str_join [c] ps) c = ps"
proof (induction ps rule: induct_list012)
  case 1 then show ?case by simp
next
  case (2 x) then show ?case by (simp add: str_split_no_sep)
next
  case (3 x y ys)
  then show ?case by (simp add: str_split_append_sep)
qed

lemma splitroot_root: "fst (splitroot s) \<in> {'''', ''/'', ''//''}"
  by (simp add: splitroot_def Let_def)

lemma wf_parse_path: "wf_path (parse_path s)"
  using splitroot_root[of s]
  by (auto simp: wf_path_def parse_path_def list_all_iff split: prod.splits dest: str_split_pieces)

lemma str_join_hd:
  "ps \<noteq> [] \<Longrightarrow> hd ps \<noteq> [] \<Longrightarrow> str_join sep ps \<noteq> [] \<and> hd (str_join sep ps) = hd (hd ps)"
  by (induction sep ps rule: str_join.induct) auto

lemma splitroot_str:
  assumes "r \<in> {'''', ''/'', ''//''}" "j \<noteq> []" "hd j \<noteq> CHR ''/''"
  shows "splitroot (r @ j) = (r, j)"
proof -
  from assms(2) obtain a t where j: "j = a # t" by (cases j) auto
  with assms(3) have a: "a \<noteq> CHR ''/''" by simp
  from assms(1) show ?thesis
    by (auto simp: splitroot_def Let_def j a)
qed

lemma parse_path_str:
  assumes "wf_path p" "parts p \<noteq> []"
  shows "parse_path (path_str p) = p"
proof -
  let ?j = "str_join ''/'' (parts p)"
  from assms have hdne: "hd (parts p) \<noteq> []" and hdns: "CHR ''/'' \<notin> set (hd (parts p))"
    by (auto simp: wf_path_def list_all_iff)
  from str_join_hd[OF assms(2) hdne, of "''/''"]
  have jne: "?j \<noteq> []" and jhd: "hd ?j = hd (hd (parts p))" by auto
  from hdne hdns have "hd (hd (parts p)) \<noteq> CHR ''/''" by (cases "hd (parts p)") auto
  with jhd have h: "hd ?j \<noteq> CHR ''/''" by simp
  from assms(1) have r: "root p \<in> {'''', ''/'', ''//''}" by (simp add: wf_path_def)
  have sr: "splitroot (root p @ ?j) = (root p, ?j)" by (rule splitroot_str[OF r jne h])
  have sp: "str_split ?j CHR ''/'' = parts p"
    using str_split_join[OF assms(2), of "CHR ''/''"] assms(1) by (simp add: wf_path_def list_all_iff)
  have flt: "filter (\<lambda>x. x \<noteq> [] \<and> x \<noteq> ''.'') (parts p) = parts p"
    using assms(1) by (auto simp: wf_path_def list_all_iff filter_id_conv)
  have ps: "path_str p = root p @ ?j" using jne by (simp add: path_str_def Let_def)
  show ?thesis by (simp add: ps parse_path_def sr sp flt)
qed

lemma find_char_None: "find_char c s = None \<longleftrightarrow> c \<notin> set s"
  by (induction s) auto

lemma find_char_Some_lt: "find_char c s = Some i \<Longrightarrow> i < length s"
  by (induction s arbitrary: i) (auto split: if_splits)

lemma str_rfind_json: "str_rfind (stem @ ''.json'') CHR ''.'' = int (length stem)"
  by (simp add: str_rfind_def)

lemma path_suffix_json:
  assumes "parts q \<noteq> []" "last (parts q) = stem @ ''.json''" "stem \<noteq> []"
  shows "path_suffix q = ''.json''"
  using assms
  by (simp add: path_suffix_def path_name_def Let_def str_rfind_json str_slice_def slice_index_def)

lemma with_suffix_fixed:
  assumes "parts q \<noteq> []" "last (parts q) = stem @ ''.json''" "stem \<noteq> []"
  shows "with_suffix q ''.json'' = Inr q"
proof -
  have "butlast (parts q) @ [stem @ ''.json''] = parts q"
    using assms(1,2) by (metis append_butlast_last_id)
  then show ?thesis
    using assms path_suffix_json[OF assms]
    by (simp add: with_suffix_def path_name_def Let_def str_slice_def slice_index_def)
qed

lemma with_suffix_result:
  assumes "with_suffix p ''.json'' = Inr q" "wf_path p"
  shows "wf_path q \<and> parts q \<noteq> [] \<and> (\<exists>stem. stem \<noteq> [] \<and> last (parts q) = stem @ ''.json'')"
proof -
  let ?name = "path_name p"
  from assms(1) have ne: "?name \<noteq> []"
    by (auto simp: with_suffix_def Let_def split: if_splits)
  then have pne: "parts p \<noteq> []" and nm: "?name = last (parts p)"
    by (auto simp: path_name_def split: if_splits)
  then have nin: "?name \<in> set (parts p)" by simp
  with assms(2) have nos: "CHR ''/'' \<notin> set ?name" by (auto simp: wf_path_def list_all_iff)
  define stem where "stem = (if path_suffix p = [] then ?name
     else str_slice ?name 0 (- int (length (path_suffix p))))"
  from assms(1) ne have q: "q = p\<lparr>parts := butlast (parts p) @ [stem @ ''.json'']\<rparr>"
    by (auto simp: with_suffix_def Let_def stem_def split: if_splits)
  have stem_ne: "stem \<noteq> []"
  proof (cases "path_suffix p = []")
    case True then show ?thesis using ne by (simp add: stem_def)
  next
    case False
    then have i: "0 < str_rfind ?name CHR ''.''" "str_rfind ?name CHR ''.'' < int (length ?name) - 1"
      and sf: "path_suffix p = str_slice ?name (str_rfind ?name CHR ''.'') (int (length ?name))"
      by (auto simp: path_suffix_def Let_def split: if_splits)
    from i sf have "length (path_suffix p) < length ?name"
      by (auto simp: str_slice_def slice_index_def Let_def)
    then show ?thesis using False
      by (auto simp: stem_def str_slice_def slice_index_def Let_def)
  qed
  have stem_sub: "set stem \<subseteq> set ?name"
    by (auto simp: stem_def str_slice_def Let_def dest: in_set_takeD in_set_dropD)
  with nos have stem_ns: "CHR ''/'' \<notin> set stem" by auto
  have "wf_path q"
    using assms(2) stem_ne stem_ns
    by (auto simp: q wf_path_def list_all_iff dest: in_set_butlastD)
  then show ?thesis using stem_ne by (auto simp: q)
qed

subsection \<open>The suffix step replaces an existing suffix\<close>

text \<open>
  Claim C10. There is a path whose final segment contains a dot for which the suffix step
  replaces the text from the last dot onward instead of appending: \<open>'/form/1.5'\<close> becomes
  \<open>'/form/1.json'\<close>, not \<open>'/form/1.5.json'\<close>.
\<close>

theorem json_endpoint_replaces_dotted_tail:
  "json_endpoint ''/form/1.5'' = Inr ''/form/1.json'' \<and>
   json_endpoint ''/form/1.5'' \<noteq> Inr ''/form/1.5.json''"
  by code_simp

subsection \<open>The suffix step is idempotent\<close>

text \<open>
  Claim C7. The \<open>.json\<close> suffixing step is idempotent: whenever it turns a path \<open>p\<close> into
  \<open>q\<close>, applying it to the already suffixed \<open>q\<close> yields \<open>q\<close> again (no second
  \<open>.json\<close> is added).
\<close>

theorem json_endpoint_idempotent:
  assumes "json_endpoint p = Inr q"
  shows "json_endpoint q = Inr q"
proof -
  from assms obtain pp where ws: "with_suffix (parse_path p) ''.json'' = Inr pp"
    and q: "q = path_str pp"
    by (auto simp: json_endpoint_def split: sum.splits)
  from with_suffix_result[OF ws wf_parse_path]
  obtain stem where wf: "wf_path pp" and pne: "parts pp \<noteq> []"
    and st: "stem \<noteq> []" "last (parts pp) = stem @ ''.json''" by auto
  have "parse_path q = pp" unfolding q by (rule parse_path_str[OF wf pne])
  moreover have "with_suffix pp ''.json'' = Inr pp" by (rule with_suffix_fixed[OF pne st(2) st(1)])
  ultimately show ?thesis by (simp add: json_endpoint_def q)
qed

theorem json_endpoint_idempotent_witness:
  "json_endpoint ''/form/123/questions'' = Inr ''/form/123/questions.json'' \<and>
   json_endpoint ''/form/123/questions.json'' = Inr ''/form/123/questions.json''"
proof -
  have h: "json_endpoint ''/form/123/questions'' = Inr ''/form/123/questions.json''"
    by code_simp
  from json_endpoint_idempotent [OF h] h show ?thesis by simp
qed

section \<open>The request built by \<open>get_form_questions\<close>\<close>

lemma versioned_url: "urljoin L base_url api_version = Inr ''https://api.jotform.com/v1''"
  by code_simp

lemma questions_endpoint_123:
  "json_endpoint ''/form/123/questions'' = Inr ''/form/123/questions.json''"
  by code_simp

lemma questions_url_123:
  "urljoin L ''https://api.jotform.com/v1'' ''/form/123/questions.json''
     = Inr ''https://api.jotform.com/form/123/questions.json''"
  by code_simp

text \<open>
  Claim C1. \<open>get_form_questions("123")\<close> makes exactly one call of \<open>requests.request\<close>:
  a GET with the \<open>apiKey\<close> header and no parameters, and returns the \<open>content\<close> of the
  decoded object. Its URL is \<open>https://api.jotform.com/form/123/questions.json\<close>: joining
  the rooted endpoint onto \<open>https://api.jotform.com/v1\<close> replaces the whole path of the
  base, so the version segment \<open>v1\<close> that the claim expects is not in the URL.
\<close>

theorem get_form_questions_request_123:
  "requests_made (snd (get_form_questions L ''123'' s)) =
     requests_made s @
       [Request (Some ''GET'') ''https://api.jotform.com/form/123/questions.json''
          [(''apiKey'', api_key (this s))] PNone] \<and>
   fst (get_form_questions L ''123'' s) =
     (case http_json L (Request (Some ''GET'')
              ''https://api.jotform.com/form/123/questions.json''
              [(''apiKey'', api_key (this s))] PNone) of
        Inl e \<Rightarrow> Inl e
      | Inr (PDict d) \<Rightarrow> Inr (dict_get d ''content'')
      | Inr _ \<Rightarrow> Inl AttributeError)"
  by (auto simp: get_form_questions_def fetch_url_def versioned_url questions_endpoint_123
      questions_url_123 log_def Let_def split: sum.splits pyval.splits)


text \<open>
  The same happens for every identifier made of letters and digits: the request goes to
  \<open>https://api.jotform.com/form/<id>/questions.json\<close>, without the version segment.
\<close>

lemma plain_char_not_special:
  assumes "plain_char c"
  shows "c \<noteq> CHR ''/''" "c \<noteq> CHR ''.''" "c \<noteq> CHR '':''" "c \<noteq> CHR ''?''" "c \<noteq> CHR ''#''"
    "c \<noteq> CHR '';''" "\<not> unsafe_url_byte c"
  using assms
  by (auto simp: plain_char_def ascii_lowercase_def ascii_uppercase_def unsafe_url_byte_def)

lemma plain_id_set:
  assumes "plain_id s"
  shows "CHR ''/'' \<notin> set s" "CHR ''.'' \<notin> set s" "CHR '':'' \<notin> set s" "CHR ''?'' \<notin> set s"
    "CHR ''#'' \<notin> set s" "CHR '';'' \<notin> set s" "filter (\<lambda>c. \<not> unsafe_url_byte c) s = s"
    "s \<noteq> []" "s \<noteq> ''.''" "s \<noteq> ''..''"
proof -
  from assms have all: "\<And>c. c \<in> set s \<Longrightarrow> plain_char c" and ne: "s \<noteq> []"
    by (auto simp: plain_id_def list_all_iff)
  show "CHR ''/'' \<notin> set s" using all plain_char_not_special(1) by blast
  show d: "CHR ''.'' \<notin> set s" using all plain_char_not_special(2) by blast
  show "CHR '':'' \<notin> set s" using all plain_char_not_special(3) by blast
  show "CHR ''?'' \<notin> set s" using all plain_char_not_special(4) by blast
  show "CHR ''#'' \<notin> set s" using all plain_char_not_special(5) by blast
  show "CHR '';'' \<notin> set s" using all plain_char_not_special(6) by blast
  show "filter (\<lambda>c. \<not> unsafe_url_byte c) s = s"
    using all plain_char_not_special(7) by (simp add: filter_id_conv)
  show "s \<noteq> []" by (rule ne)
  show "s \<noteq> ''.''" using d by auto
  show "s \<noteq> ''..''" using d by auto
qed

lemma questions_endpoint_plain:
  assumes "plain_id i"
  shows "json_endpoint (''/form/'' @ i @ ''/questions'') = Inr (''/form/'' @ i @ ''/questions.json'')"
proof -
  note p = plain_id_set[OF assms]
  define u where "u = ''/form/'' @ i @ ''/questions''"
  define rel where "rel = ''form'' @ CHR ''/'' # (i @ CHR ''/'' # ''questions'')"
  have sr: "splitroot u = (''/'', rel)"
    by (simp add: u_def rel_def splitroot_def)
  have "str_split rel CHR ''/'' = ''form'' # str_split (i @ CHR ''/'' # ''questions'') CHR ''/''"
    unfolding rel_def by (rule str_split_append_sep) simp
  also have "str_split (i @ CHR ''/'' # ''questions'') CHR ''/''
          = i # str_split ''questions'' CHR ''/''"
    by (rule str_split_append_sep[OF p(1)])
  finally have sp: "str_split rel CHR ''/'' = [''form'', i, ''questions'']"
    by simp
  have pp: "parse_path u = \<lparr>root = ''/'', parts = [''form'', i, ''questions'']\<rparr>"
    using p(8,9) by (simp add: parse_path_def sr sp)
  have ws: "with_suffix \<lparr>root = ''/'', parts = [''form'', i, ''questions'']\<rparr> ''.json''
              = Inr \<lparr>root = ''/'', parts = [''form'', i, ''questions.json'']\<rparr>"
    by (simp add: with_suffix_def path_name_def path_suffix_def str_rfind_def Let_def)
  have "json_endpoint u = Inr (''/form/'' @ i @ ''/questions.json'')"
    by (simp add: json_endpoint_def pp ws path_str_def)
  then show ?thesis by (simp add: u_def)
qed

lemma base_parsed:
  "urlparse L ''https://api.jotform.com/v1'' []
     = Inr (''https'', ''api.jotform.com'', ''/v1'', [], [], [])"
  by code_simp

lemma questions_url_plain:
  assumes "plain_id i"
  shows "urljoin L ''https://api.jotform.com/v1'' (''/form/'' @ i @ ''/questions.json'')
           = Inr (''https://api.jotform.com/form/'' @ i @ ''/questions.json'')"
proof -
  note p = plain_id_set[OF assms]
  define e where "e = ''/form'' @ CHR ''/'' # (i @ CHR ''/'' # ''questions.json'')"
  have ne: "e \<noteq> []" and hd1: "take 1 e = ''/''" and hd2: "take 2 e \<noteq> ''//''"
    by (simp_all add: e_def)
  have nocolon: "CHR '':'' \<notin> set e" and nohash: "CHR ''#'' \<notin> set e"
    and noq: "CHR ''?'' \<notin> set e" and nosemi: "CHR '';'' \<notin> set e"
    using p by (auto simp: e_def)
  have strip: "dropWhile c0_control_or_space e = e"
    by (simp add: e_def c0_control_or_space_def)
  have flt: "filter (\<lambda>c. \<not> unsafe_url_byte c) e = e"
    using p(7) by (simp add: e_def unsafe_url_byte_def)
  have fnd: "str_find e CHR '':'' = - 1"
    using nocolon by (simp add: str_find_def find_char_None[THEN iffD2])
  have us: "urlsplit L e ''https'' = Inr (''https'', [], e, [], [])"
    unfolding urlsplit_def strip flt fnd Let_def
    using nohash noq hd2
    by (simp add: str_strip_def c0_control_or_space_def unsafe_url_byte_def checknetloc_def)
  have up: "urlparse L e ''https'' = Inr (''https'', [], e, [], [], [])"
    using nosemi by (simp add: urlparse_def us)
  have "str_split e CHR ''/''
          = [] # str_split (''form'' @ CHR ''/'' # (i @ CHR ''/'' # ''questions.json'')) CHR ''/''"
    by (simp add: e_def)
  also have "str_split (''form'' @ CHR ''/'' # (i @ CHR ''/'' # ''questions.json'')) CHR ''/''
          = ''form'' # str_split (i @ CHR ''/'' # ''questions.json'') CHR ''/''"
    by (rule str_split_append_sep) simp
  also have "str_split (i @ CHR ''/'' # ''questions.json'') CHR ''/''
          = i # str_split ''questions.json'' CHR ''/''"
    by (rule str_split_append_sep[OF p(1)])
  finally have sp: "str_split e CHR ''/'' = [[], ''form'', i, ''questions.json'']"
    by simp
  have rs: "resolve_segments [] [[], ''form'', i, ''questions.json'']
              = [[], ''form'', i, ''questions.json'']"
    using p(9,10) by simp
  have "urljoin L ''https://api.jotform.com/v1'' e
          = Inr (''https://api.jotform.com/form/'' @ i @ ''/questions.json'')"
    using p(8,9,10) ne hd1
    by (simp add: urljoin_def base_parsed up sp rs Let_def uses_relative_def uses_netloc_def
        urlunparse_def urlunsplit_def)
  then show ?thesis by (simp add: e_def)
qed

lemma get_form_questions_plain_id:
  assumes "plain_id i"
  shows "requests_made (snd (get_form_questions L i s)) =
           requests_made s @
             [Request (Some ''GET'') (''https://api.jotform.com/form/'' @ i @ ''/questions.json'')
                [(''apiKey'', api_key (this s))] PNone]"
  using questions_endpoint_plain[OF assms] questions_url_plain[OF assms, of L]
  by (auto simp: get_form_questions_def fetch_url_def versioned_url log_def Let_def
      split: sum.splits pyval.splits)

section \<open>The parameter helpers\<close>

text \<open>
  Claim C2. With every argument unset, \<open>create_conditions\<close> returns all three keys, each
  mapped to \<open>None\<close>, and \<open>create_history_query("all", None, None, None, None)\<close> (the call
  made by \<open>get_history(action="all")\<close>) returns all five keys: the comprehension tests the
  key, which is never empty, so no unset key is omitted.
\<close>

theorem helpers_keep_unset_keys:
  "create_conditions L PNone PNone PNone PNone =
     [(''offset'', PNone), (''limit'', PNone), (''orderby'', PNone)] \<and>
   create_history_query (PStr ''all'') PNone PNone PNone PNone =
     [(''action'', PStr ''all''), (''date'', PNone), (''sort_by'', PNone),
      (''startDate'', PNone), (''endDate'', PNone)]"
  by (simp add: create_conditions_def create_history_query_def)


text \<open>
  For all arguments the helpers return every key of \<open>kwargs\<close>; \<open>filter\<close> is added by
  \<open>create_conditions\<close> exactly when \<open>filters\<close> is true.
\<close>

lemma create_conditions_keys:
  "map fst (create_conditions L offset limit filters order_by)
     = [''offset'', ''limit'', ''orderby''] @ (if truthy filters then [''filter''] else [])"
  by (simp add: create_conditions_def)

lemma create_history_query_keys:
  "map fst (create_history_query action date sort_by start_date end_date)
     = [''action'', ''date'', ''sort_by'', ''startDate'', ''endDate'']"
  by (simp add: create_history_query_def)

section \<open>Key flattening\<close>

subsection \<open>Storing entries one after the other\<close>

lemma update_fresh: "k \<notin> fst ` set al \<Longrightarrow> AList.update k v al = al @ [(k, v)]"
  by (induction al) auto


lemma foldl_update_keys:
  "fst ` set (foldl (\<lambda>d (k, v). AList.update (f k) v d) acc es)
     = fst ` set acc \<union> f ` fst ` set es"
proof (induction es arbitrary: acc)
  case Nil
  then show ?case by simp
next
  case (Cons e es)
  obtain k v where e: "e = (k, v)" by (cases e)
  have "fst ` set (AList.update (f k) v acc) = {f k} \<union> fst ` set acc"
    by (rule dom_update)
  then show ?case using Cons.IH[of "AList.update (f k) v acc"] by (auto simp: e)
qed


lemma foldl_update_fresh:
  "distinct (map (\<lambda>e. f (fst e)) es) \<Longrightarrow> f ` fst ` set es \<inter> fst ` set acc = {} \<Longrightarrow>
   foldl (\<lambda>d (k, v). AList.update (f k) v d) acc es = acc @ map (\<lambda>(k, v). (f k, v)) es"
proof (induction es arbitrary: acc)
  case Nil
  then show ?case by simp
next
  case (Cons e es)
  obtain k v where e: "e = (k, v)" by (cases e)
  from Cons.prems have fresh: "f k \<notin> fst ` set acc" by (auto simp: e)
  have step: "AList.update (f k) v acc = acc @ [(f k, v)]" by (rule update_fresh[OF fresh])
  have d: "distinct (map (\<lambda>e. f (fst e)) es)" using Cons.prems by simp
  have disj: "f ` fst ` set es \<inter> fst ` set (acc @ [(f k, v)]) = {}"
    using Cons.prems by (auto simp: e)
  show ?case using Cons.IH[OF d disj] by (simp add: e step)
qed


lemma foldl_update_inj:
  assumes "inj f" "distinct (map fst es)"
  shows "foldl (\<lambda>d (k, v). AList.update (f k) v d) [] es = map (\<lambda>(k, v). (f k, v)) es"
proof -
  have "map (\<lambda>e. f (fst e)) es = map f (map fst es)" by simp
  with assms have "distinct (map (\<lambda>e. f (fst e)) es)"
    by (metis distinct_map inj_on_subset subset_UNIV)
  from foldl_update_fresh[OF this, of "[]"] show ?thesis by simp
qed


lemma inj_one_level: "inj (one_level outer)"
  by (rule injI) (simp add: one_level_def)


subsection \<open>\<open>created_at\<close> in the two submission operations\<close>

text \<open>
  Claim C3. \<open>create_form_submission\<close> splits the key \<open>created_at\<close> at its underscore and
  sends \<open>submission[created][at]\<close>; only \<open>edit_submission\<close> keeps it whole, mapping
  \<open>{"created_at": "2020-01-01", "status_new": "1"}\<close> to \<open>submission[created_at]\<close> and
  \<open>submission[status][new]\<close>.
\<close>

theorem create_form_submission_splits_created_at:
  "create_form_submission_params [(''created_at'', PStr ''2020-01-01'')] =
     [(''submission[created][at]'', PStr ''2020-01-01'')] \<and>
   edit_submission_params [(''created_at'', PStr ''2020-01-01''), (''status_new'', PStr ''1'')] =
     [(''submission[created_at]'', PStr ''2020-01-01''), (''submission[status][new]'', PStr ''1'')]"
  by code_simp


subsection \<open>Questions and properties are not split\<close>

text \<open>
  Claim C4, as stated, fails: \<open>create_form_question\<close> maps the key \<open>a_b\<close> to
  \<open>question[a_b]\<close>, not to \<open>question[a][b]\<close>.
\<close>

theorem question_key_not_split_counterexample:
  "create_form_question_params [(''a_b'', PStr ''v'')] = [(''question[a_b]'', PStr ''v'')] \<and>
   create_form_question_params [(''a_b'', PStr ''v'')] \<noteq> [(''question[a][b]'', PStr ''v'')]"
  by code_simp


text \<open>
  Claim C4, amended. \<open>create_form_question\<close>, \<open>edit_form_question\<close> and
  \<open>set_form_properties\<close> map every key of their dict, with or without an underscore, to the
  one-level form \<open>question[key]\<close> (the first two) or \<open>properties[key]\<close>, keeping the value
  and the order of the entries.
\<close>

theorem question_and_property_keys_one_level:
  assumes "distinct (map fst d)"
  shows "create_form_question_params d = map (\<lambda>(key, v). (one_level ''question'' key, v)) d \<and>
         edit_form_question_params d = map (\<lambda>(key, v). (one_level ''question'' key, v)) d \<and>
         set_form_properties_params d = map (\<lambda>(key, v). (one_level ''properties'' key, v)) d"
  using foldl_update_inj[OF inj_one_level assms, of "''question''"]
        foldl_update_inj[OF inj_one_level assms, of "''properties''"]
  by (simp add: create_form_question_params_def edit_form_question_params_def
      set_form_properties_params_def one_level_def)


theorem question_and_property_keys_one_level_witness:
  "create_form_question_params [(''type'', PStr ''control_head''), (''text_x'', PStr ''v'')]
     = [(''question[type]'', PStr ''control_head''), (''question[text_x]'', PStr ''v'')] \<and>
   edit_form_question_params [(''type'', PStr ''control_head''), (''text_x'', PStr ''v'')]
     = [(''question[type]'', PStr ''control_head''), (''question[text_x]'', PStr ''v'')] \<and>
   set_form_properties_params [(''type'', PStr ''control_head''), (''text_x'', PStr ''v'')]
     = [(''properties[type]'', PStr ''control_head''), (''properties[text_x]'', PStr ''v'')]"
  using question_and_property_keys_one_level
          [of "[(''type'', PStr ''control_head''), (''text_x'', PStr ''v'')]"]
  by (simp add: one_level_def)


subsection \<open>Submission keys are split at the first underscore\<close>

lemma find_char_takeWhile:
  "c \<in> set s \<Longrightarrow> find_char c s = Some (length (takeWhile (\<lambda>x. x \<noteq> c) s))"
  by (induction s) auto


lemma takeWhile_shorter:
  "c \<in> set s \<Longrightarrow> length (takeWhile (\<lambda>x. x \<noteq> c) s) < length s"
  by (induction s) auto


lemma slice_before:
  assumes "CHR ''_'' \<in> set key"
  shows "str_slice key 0 (str_find key CHR ''_'') = before_underscore key"
proof -
  let ?n = "length (takeWhile (\<lambda>x. x \<noteq> CHR ''_'') key)"
  have f: "str_find key CHR ''_'' = int ?n"
    by (simp add: str_find_def find_char_takeWhile[OF assms])
  have le: "?n \<le> length key" by (rule length_takeWhile_le)
  have "take ?n key = takeWhile (\<lambda>x. x \<noteq> CHR ''_'') key"
    by (rule takeWhile_eq_take[symmetric])
  then show ?thesis using le
    by (simp add: f str_slice_def slice_index_def before_underscore_def min_absorb2)
qed


lemma slice_after:
  assumes "CHR ''_'' \<in> set key"
  shows "str_slice key (str_find key CHR ''_'' + 1) (int (length key)) = after_underscore key"
proof -
  let ?n = "length (takeWhile (\<lambda>x. x \<noteq> CHR ''_'') key)"
  have f: "str_find key CHR ''_'' = int ?n"
    by (simp add: str_find_def find_char_takeWhile[OF assms])
  have "?n < length key" by (rule takeWhile_shorter[OF assms])
  then have a: "slice_index (length key) (int ?n + 1) = Suc ?n"
    by (simp add: slice_index_def nat_add_distrib)
  have b: "slice_index (length key) (int (length key)) = length key"
    by (simp add: slice_index_def)
  have "tl (dropWhile (\<lambda>x. x \<noteq> CHR ''_'') key) = drop (Suc ?n) key"
    by (simp add: dropWhile_eq_drop drop_Suc tl_drop)
  then show ?thesis
    by (simp add: f str_slice_def a b after_underscore_def)
qed


text \<open>
  Claim C5. For every key of the submission that contains an underscore and is not
  \<open>created_at\<close>, both \<open>create_form_submission\<close> and \<open>edit_submission\<close> build the key
  \<open>submission[before][after]\<close> from the text before the first underscore and the text after
  it (further underscores stay in the second part), and that key is in the parameters they
  send; \<open>a_b_c\<close> becomes \<open>submission[a][b_c]\<close>.
\<close>

theorem submission_key_split_at_first_underscore:
  assumes "CHR ''_'' \<in> set key" and "key \<noteq> ''created_at''" and "(key, v) \<in> set submission"
  shows "create_form_submission_key key =
           two_level ''submission'' (before_underscore key) (after_underscore key) \<and>
         edit_submission_key key =
           two_level ''submission'' (before_underscore key) (after_underscore key) \<and>
         two_level ''submission'' (before_underscore key) (after_underscore key)
           \<in> fst ` set (create_form_submission_params submission) \<and>
         two_level ''submission'' (before_underscore key) (after_underscore key)
           \<in> fst ` set (edit_submission_params submission)"
proof -
  let ?k = "two_level ''submission'' (before_underscore key) (after_underscore key)"
  have c: "create_form_submission_key key = ?k"
    using assms(1) by (simp add: create_form_submission_key_def two_level_def slice_before slice_after)
  have e: "edit_submission_key key = ?k"
    using assms(1,2) by (simp add: edit_submission_key_def two_level_def slice_before slice_after)
  from assms(3) have kin: "key \<in> fst ` set submission" by force
  have "create_form_submission_key key \<in> fst ` set (create_form_submission_params submission)"
    unfolding create_form_submission_params_def foldl_update_keys using kin by simp
  moreover have "edit_submission_key key \<in> fst ` set (edit_submission_params submission)"
    unfolding edit_submission_params_def foldl_update_keys using kin by simp
  ultimately show ?thesis using c e by simp
qed


theorem submission_key_split_at_first_underscore_witness:
  "create_form_submission_key ''a_b_c'' = ''submission[a][b_c]'' \<and>
   edit_submission_key ''a_b_c'' = ''submission[a][b_c]'' \<and>
   ''submission[a][b_c]'' \<in> fst ` set (create_form_submission_params [(''a_b_c'', PInt 1)]) \<and>
   ''submission[a][b_c]'' \<in> fst ` set (edit_submission_params [(''a_b_c'', PInt 1)])"
  using submission_key_split_at_first_underscore
          [of "''a_b_c''" "PInt 1" "[(''a_b_c'', PInt 1)]"]
  by (simp add: two_level_def before_underscore_def after_underscore_def)


section \<open>Whole-form flattening\<close>

lemma set_update_subset: "set (AList.update k v al) \<subseteq> insert (k, v) (set al)"
  by (induction al) auto

lemma set_foldl_update_subset:
  "set (foldl (\<lambda>d (k, v). AList.update k v d) acc es) \<subseteq> set acc \<union> set es"
proof (induction es arbitrary: acc)
  case Nil
  then show ?case by simp
next
  case (Cons e es)
  obtain k v where e: "e = (k, v)" by (cases e)
  from Cons.IH[of "AList.update k v acc"] set_update_subset[of k v acc]
  show ?case by (auto simp: e)
qed

lemma map_of_foldl_update_other:
  "k \<notin> fst ` set es \<Longrightarrow>
   map_of (foldl (\<lambda>d (k, v). AList.update k v d) acc es) k = map_of acc k"
proof (induction es arbitrary: acc)
  case Nil
  then show ?case by simp
next
  case (Cons e es)
  obtain k0 v0 where e: "e = (k0, v0)" by (cases e)
  from Cons.prems have ne: "k \<noteq> k0" and nin: "k \<notin> fst ` set es" by (auto simp: e)
  show ?case using Cons.IH[OF nin, of "AList.update k0 v0 acc"] ne
    by (simp add: e update_conv')
qed

lemma map_of_foldl_update_entry:
  "distinct (map fst es) \<Longrightarrow> (k, v) \<in> set es \<Longrightarrow>
   map_of (foldl (\<lambda>d (k, v). AList.update k v d) acc es) k = Some v"
proof (induction es arbitrary: acc)
  case Nil
  then show ?case by simp
next
  case (Cons e es)
  obtain k0 v0 where e: "e = (k0, v0)" by (cases e)
  from Cons.prems(1) have d: "distinct (map fst es)" and fresh: "k0 \<notin> fst ` set es"
    by (auto simp: e)
  show ?case
  proof (cases "(k, v) = (k0, v0)")
    case True
    then show ?thesis
      using map_of_foldl_update_other[OF fresh, of "AList.update k0 v0 acc"]
      by (simp add: e update_conv')
  next
    case False
    with Cons.prems(2) have "(k, v) \<in> set es" by (auto simp: e)
    from Cons.IH[OF d this] show ?thesis by (simp add: e)
  qed
qed

lemma foldl_update_present:
  "(\<And>k v. (k, v) \<in> set es \<Longrightarrow> map_of acc k = Some v) \<Longrightarrow>
   foldl (\<lambda>d (k, v). AList.update k v d) acc es = acc"
proof (induction es)
  case Nil
  then show ?case by simp
next
  case (Cons e es)
  obtain k v where e: "e = (k, v)" by (cases e)
  have "map_of acc k = Some v" using Cons.prems[of k v] by (simp add: e)
  then have "AList.update k v acc = acc" by (rule update_triv)
  moreover have "foldl (\<lambda>d (k, v). AList.update k v d) acc es = acc"
    using Cons.IH Cons.prems by simp
  ultimately show ?case by (simp add: e)
qed

lemma foldl_update_twice:
  assumes "distinct (map fst es)"
  shows "foldl (\<lambda>d (k, v). AList.update k v d) (foldl (\<lambda>d (k, v). AList.update k v d) acc es) es
           = foldl (\<lambda>d (k, v). AList.update k v d) acc es"
  by (rule foldl_update_present) (rule map_of_foldl_update_entry[OF assms])

lemma for_each_properties:
  assumes "distinct (map fst d)" "set es \<subseteq> set d"
  shows "for_each (properties_item key (PDict d)) (map (\<lambda>(k, v). PStr k) es) params
           = Inr (foldl (\<lambda>d (k, v). AList.update k v d) params
                    (map (\<lambda>(k, v). (one_level key k, v)) es))"
  using assms(2)
proof (induction es arbitrary: params)
  case Nil
  then show ?case by simp
next
  case (Cons e es)
  obtain k v where e: "e = (k, v)" by (cases e)
  from Cons.prems have "(k, v) \<in> set d" by (simp add: e)
  with assms(1) have "map_of d k = Some v" by simp
  then have "properties_item key (PDict d) params (PStr k)
               = Inr (AList.update (one_level key k) v params)"
    by (simp add: properties_item_def py_getitem_def one_level_def)
  moreover from Cons.prems have "set es \<subseteq> set d" by simp
  ultimately show ?case using Cons.IH by (simp add: e)
qed

lemma for_each_fields:
  assumes "distinct (map fst props)" "set es \<subseteq> set props"
  shows "for_each (field_item key (PStr f) (PDict props)) (map (\<lambda>(a, x). PStr a) es) params
           = Inr (foldl (\<lambda>d (k, v). AList.update k v d) params
                    (map (\<lambda>(a, x). (two_level key f a, x)) es))"
  using assms(2)
proof (induction es arbitrary: params)
  case Nil
  then show ?case by simp
next
  case (Cons e es)
  obtain a x where e: "e = (a, x)" by (cases e)
  from Cons.prems have "(a, x) \<in> set props" by (simp add: e)
  with assms(1) have "map_of props a = Some x" by simp
  then have "field_item key (PStr f) (PDict props) params (PStr a)
               = Inr (AList.update (two_level key f a) x params)"
    by (simp add: field_item_def py_getitem_def two_level_def)
  moreover from Cons.prems have "set es \<subseteq> set props" by simp
  ultimately show ?case using Cons.IH by (simp add: e)
qed

lemma distinct_one_level_entries:
  assumes "distinct (map fst d)"
  shows "distinct (map fst (map (\<lambda>(k, v). (one_level key k, v)) d))"
proof -
  have eq: "map fst (map (\<lambda>(k, v). (one_level key k, v)) d) = map (one_level key) (map fst d)"
    by (induction d) auto
  have "distinct (map (one_level key) (map fst d))"
    using assms inj_one_level[of key] by (metis distinct_map inj_on_subset subset_UNIV)
  then show ?thesis by (simp only: eq)
qed

lemma group_item_properties:
  assumes "distinct (map fst d)"
  shows "group_item ''properties'' (PDict d) params k
           = Inr (foldl (\<lambda>d (k, v). AList.update k v d) params
                    (map (\<lambda>(k, v). (one_level ''properties'' k, v)) d))"
  using for_each_properties[OF assms subset_refl, of "''properties''" params]
  by (simp add: group_item_def py_iter_def)

lemma for_each_group_properties:
  assumes "distinct (map fst d)"
  shows "for_each (group_item ''properties'' (PDict d)) ks params
           = Inr (if ks = [] then params
                  else foldl (\<lambda>d (k, v). AList.update k v d) params
                         (map (\<lambda>(k, v). (one_level ''properties'' k, v)) d))"
proof (induction ks arbitrary: params)
  case Nil
  then show ?case by simp
next
  case (Cons k ks)
  let ?E = "map (\<lambda>(k, v). (one_level ''properties'' k, v)) d"
  have tw: "\<And>acc. foldl (\<lambda>d (k, v). AList.update k v d)
                     (foldl (\<lambda>d (k, v). AList.update k v d) acc ?E) ?E
                   = foldl (\<lambda>d (k, v). AList.update k v d) acc ?E"
    by (rule foldl_update_twice[OF distinct_one_level_entries[OF assms]])
  have step: "group_item ''properties'' (PDict d) params k
                = Inr (foldl (\<lambda>d (k, v). AList.update k v d) params ?E)"
    by (rule group_item_properties[OF assms])
  have "for_each (group_item ''properties'' (PDict d)) (k # ks) params
          = for_each (group_item ''properties'' (PDict d)) ks
              (foldl (\<lambda>d (k, v). AList.update k v d) params ?E)"
    by (simp only: for_each.simps step sum.case)
  also have "\<dots> = Inr (if ks = [] then foldl (\<lambda>d (k, v). AList.update k v d) params ?E
                        else foldl (\<lambda>d (k, v). AList.update k v d)
                               (foldl (\<lambda>d (k, v). AList.update k v d) params ?E) ?E)"
    by (rule Cons.IH)
  also have "\<dots> = Inr (foldl (\<lambda>d (k, v). AList.update k v d) params ?E)"
    by (simp add: tw)
  finally show ?case by simp
qed

lemma for_each_group_fields:
  assumes "key \<noteq> ''properties''" "distinct (map fst d)"
    and "list_all (\<lambda>(f, v). is_dict v) d" "set es \<subseteq> set d"
  shows "for_each (group_item key (PDict d)) (map (\<lambda>(f, v). PStr f) es) params
           = Inr (foldl (\<lambda>d (k, v). AList.update k v d) params
                    (concat (map (\<lambda>(f, props). map (\<lambda>(a, v). (two_level key f a, v))
                                                  (dict_items props)) es)))"
  using assms(4)
proof (induction es arbitrary: params)
  case Nil
  then show ?case by simp
next
  case (Cons e es)
  obtain f v where e: "e = (f, v)" by (cases e)
  from Cons.prems have mem: "(f, v) \<in> set d" by (simp add: e)
  with assms(2) have look: "map_of d f = Some v" by simp
  from mem assms(3) have "is_dict v" by (auto simp: list_all_iff)
  then obtain props where v: "v = PDict props" and dp: "distinct (map fst props)"
    by (cases v) auto
  have "group_item key (PDict d) params (PStr f)
          = Inr (foldl (\<lambda>d (k, v). AList.update k v d) params
                   (map (\<lambda>(a, x). (two_level key f a, x)) props))"
    using assms(1) look for_each_fields[OF dp subset_refl, of key f params]
    by (simp add: group_item_def py_getitem_def py_iter_def v)
  moreover from Cons.prems have "set es \<subseteq> set d" by simp
  ultimately show ?case using Cons.IH by (simp add: e v)
qed

lemma form_item_entries:
  assumes "is_dict value"
    and "g = ''properties'' \<or> list_all (\<lambda>(f, v). is_dict v) (dict_items value)"
  shows "form_item params (g, value)
           = Inr (foldl (\<lambda>d (k, v). AList.update k v d) params (group_entries (g, value)))"
proof -
  from assms(1) obtain d where val: "value = PDict d" and dd: "distinct (map fst d)"
    by (cases "value") auto
  show ?thesis
  proof (cases "g = ''properties''")
    case True
    show ?thesis
      using for_each_group_properties[OF dd, of "map (\<lambda>(k, v). PStr k) d" params]
      by (auto simp: form_item_def py_iter_def val True group_entries_def)
  next
    case False
    with assms(2) have "list_all (\<lambda>(f, v). is_dict v) d" by (simp add: val)
    from for_each_group_fields[OF False dd this subset_refl, of params]
    show ?thesis
      by (simp add: form_item_def py_iter_def val False group_entries_def)
  qed
qed

lemma for_each_form_item:
  assumes "two_level_form form"
  shows "for_each form_item form params
           = Inr (foldl (\<lambda>d (k, v). AList.update k v d) params (flat_entries form))"
  using assms
proof (induction form arbitrary: params)
  case Nil
  then show ?case by (simp add: flat_entries_def)
next
  case (Cons e form)
  obtain g val where e: "e = (g, val)" by (cases e)
  from Cons.prems have a: "is_dict val"
    and b: "g = ''properties'' \<or> list_all (\<lambda>(f, v). is_dict v) (dict_items val)"
    and rest: "two_level_form form"
    by (auto simp: two_level_form_def e)
  show ?case
    using form_item_entries[OF a b, of params] Cons.IH[OF rest]
    by (simp add: e flat_entries_def)
qed

text \<open>
  Claim C6. For every two-level nested input, \<open>create_form\<close> builds its parameters from
  exactly these entries, stored in order: \<open>properties[key] = value\<close> for every entry of the
  \<open>properties\<close> group and \<open>group[field][property] = value\<close> for every leaf of every other
  group. Every entry of the result is one of them, every one of their keys is a key of the
  result, and when no two of them share a key the result is their list.
\<close>

theorem create_form_flattens_leaves:
  assumes "two_level_form form"
  shows "create_form_params form = Inr (dict_of_items (flat_entries form)) \<and>
         set (dict_of_items (flat_entries form)) \<subseteq> set (flat_entries form) \<and>
         fst ` set (dict_of_items (flat_entries form)) = fst ` set (flat_entries form) \<and>
         (distinct (map fst (flat_entries form)) \<longrightarrow>
            dict_of_items (flat_entries form) = flat_entries form)"
proof -
  have 1: "create_form_params form = Inr (dict_of_items (flat_entries form))"
    using for_each_form_item[OF assms, of "[]"]
    by (simp add: create_form_params_def dict_of_items_def)
  have 2: "set (dict_of_items (flat_entries form)) \<subseteq> set (flat_entries form)"
    using set_foldl_update_subset[of "[]" "flat_entries form"]
    by (simp add: dict_of_items_def)
  have 3: "fst ` set (dict_of_items (flat_entries form)) = fst ` set (flat_entries form)"
    using foldl_update_keys[of "\<lambda>k. k" "[]" "flat_entries form"]
    by (simp add: dict_of_items_def)
  have 4: "dict_of_items (flat_entries form) = flat_entries form"
    if "distinct (map fst (flat_entries form))"
  proof -
    from that have "distinct (map (\<lambda>e. (\<lambda>k. k) (fst e)) (flat_entries form))" by simp
    from foldl_update_fresh[OF this, of "[]"] show ?thesis
      by (simp add: dict_of_items_def)
  qed
  from 1 2 3 4 show ?thesis by blast
qed


theorem create_form_flattens_leaves_witness:
  "two_level_form
     [(''questions'', PDict [(''0'', PDict [(''type'', PStr ''control_head''),
                                            (''text'', PStr ''Form Title'')])]),
      (''properties'', PDict [(''title'', PStr ''New Form''), (''height'', PStr ''600'')])] \<and>
   create_form_params
     [(''questions'', PDict [(''0'', PDict [(''type'', PStr ''control_head''),
                                            (''text'', PStr ''Form Title'')])]),
      (''properties'', PDict [(''title'', PStr ''New Form''), (''height'', PStr ''600'')])]
   = Inr [(''questions[0][type]'', PStr ''control_head''),
          (''questions[0][text]'', PStr ''Form Title''),
          (''properties[title]'', PStr ''New Form''),
          (''properties[height]'', PStr ''600'')]"
proof -
  let ?form = "[(''questions'', PDict [(''0'', PDict [(''type'', PStr ''control_head''),
                                            (''text'', PStr ''Form Title'')])]),
      (''properties'', PDict [(''title'', PStr ''New Form''), (''height'', PStr ''600'')])]"
  have h: "two_level_form ?form" by code_simp
  have e: "dict_of_items (flat_entries ?form) = [(''questions[0][type]'', PStr ''control_head''),
          (''questions[0][text]'', PStr ''Form Title''),
          (''properties[title]'', PStr ''New Form''),
          (''properties[height]'', PStr ''600'')]" by code_simp
  from create_form_flattens_leaves[OF h] h e show ?thesis by simp
qed


section \<open>The response envelope\<close>





section \<open>The client configuration is never written\<close>

lemma fetch_url_this: "this (snd (fetch_url L url params method s)) = this s"
  by (auto simp: fetch_url_def log_def Let_def split: sum.splits pyval.splits)

lemma create_form_this: "this (snd (create_form L form s)) = this s"
  by (simp add: create_form_def fetch_url_this split: sum.splits)

lemma run_this: "this (snd (run L c s)) = this s"
  by (cases c)
     (simp_all add: fetch_url_this create_form_this log_def
        get_user_def get_usage_def get_forms_def get_submissions_def get_subusers_def
        get_folders_def get_reports_def get_settings_def update_settings_def get_history_def
        get_form_def get_form_questions_def get_form_question_def get_form_submissions_def
        create_form_submission_def create_form_submissions_def get_form_files_def
        get_form_webhooks_def create_form_webhook_def delete_form_webhook_def
        get_submission_def get_report_def get_folder_def get_form_properties_def
        get_form_property_def get_form_reports_def create_report_def delete_submission_def
        edit_submission_def clone_form_def delete_form_question_def create_form_question_def
        create_form_questions_def edit_form_question_def set_form_properties_def
        set_multiple_form_properties_def create_forms_def delete_form_def register_user_def
        login_user_def logout_user_def get_plan_def delete_report_def)

lemma run_all_this: "this (run_all L cs s) = this s"
  by (induction cs arbitrary: s) (simp_all add: run_this)

text \<open>
  Claim C9. Every method of the client leaves the client object as it found it: the fields
  \<open>api_key\<close> and \<open>debug_mode\<close> set by \<open>__init__\<close> are the same after the call, whether it
  returns or raises, and so they are after any sequence of calls. The client object has no
  other field.
\<close>

theorem client_configuration_unchanged:
  "this (snd (run L c s)) = this s \<and>
   api_key (this (snd (run L c s))) = api_key (this s) \<and>
   debug_mode (this (snd (run L c s))) = debug_mode (this s) \<and>
   this (run_all L cs s) = this s"
  by (simp add: run_this run_all_this)

end
